theory Spec2Isabelle
  imports Main "HOL-Library.AList"
begin

section \<open>Values and exceptions of the extractor\<close>

text \<open>
  The extractor of \<^verbatim>\<open>youtube_dl/extractor/roosterteeth.py\<close> works on the values
  that the JSON parser hands to Python: \<^verbatim>\<open>None\<close>, booleans, integers, strings,
  lists and dictionaries with string keys. A dictionary is an association list in which
  the first binding of a key is the one that counts. Numbers are Python's unbounded
  integers; floating-point numbers are outside this development.
\<close>

datatype json =
    JNull
  | JBool bool
  | JInt int
  | JStr string
  | JList "json list"
  | JObj "(string \<times> json) list"

text \<open>
  The cause attached to an \<^verbatim>\<open>ExtractorError\<close>: an HTTP error with its status code
  and the bytes of the response body (\<^verbatim>\<open>compat_HTTPError\<close>), the \<^verbatim>\<open>ValueError\<close>
  of the JSON parser, or anything else (a connection failure, say).
\<close>

datatype cause = HTTPError int string | ValueError | OtherCause

text \<open>
  Every exception the code can raise is a value. \<open>ExtractorError\<close> carries its message
  and cause. \<open>LoginRequired\<close> is what \<^verbatim>\<open>raise_login_required(msg)\<close> raises: the
  host framework's expected error that asks for account credentials, carrying \<open>msg\<close>.
  \<open>RecursionError\<close> is raised when the interpreter's call stack is exhausted,
  \<open>UnicodeDecodeError\<close> when the bytes of a response body are not a text.
\<close>

datatype error =
    ExtractorError string "cause option"
  | LoginRequired string
  | KeyError json
  | IndexError
  | TypeError
  | AttributeError
  | AssertionError
  | RecursionError
  | UnicodeDecodeError

subsection \<open>Python's operations on parsed JSON\<close>

text \<open>Truth value of an object, as \<^verbatim>\<open>if x:\<close> and \<^verbatim>\<open>x or y\<close> test it.\<close>

fun truthy :: "json \<Rightarrow> bool" where
  "truthy JNull = False"
| "truthy (JBool b) = b"
| "truthy (JInt i) = (i \<noteq> 0)"
| "truthy (JStr s) = (s \<noteq> [])"
| "truthy (JList xs) = (xs \<noteq> [])"
| "truthy (JObj kvs) = (kvs \<noteq> [])"

definition py_or :: "json \<Rightarrow> json \<Rightarrow> json" where
  "py_or a b = (if truthy a then a else b)"

text \<open>\<^verbatim>\<open>x[key]\<close> with a string key: only a dictionary can answer.\<close>

fun subscript :: "json \<Rightarrow> string \<Rightarrow> error + json" where
  "subscript (JObj kvs) k =
     (case map_of kvs k of None \<Rightarrow> Inl (KeyError (JStr k)) | Some v \<Rightarrow> Inr v)"
| "subscript _ k = Inl TypeError"

text \<open>\<^verbatim>\<open>x[0]\<close>.\<close>

fun index0 :: "json \<Rightarrow> error + json" where
  "index0 (JList []) = Inl IndexError"
| "index0 (JList (x # xs)) = Inr x"
| "index0 (JStr []) = Inl IndexError"
| "index0 (JStr (c # cs)) = Inr (JStr [c])"
| "index0 (JObj kvs) = Inl (KeyError (JInt 0))"
| "index0 _ = Inl TypeError"

text \<open>\<^verbatim>\<open>x.get(key, default)\<close> and \<^verbatim>\<open>x.get(key)\<close>: a method of dictionaries only.\<close>

fun py_get_default :: "json \<Rightarrow> string \<Rightarrow> json \<Rightarrow> error + json" where
  "py_get_default (JObj kvs) k d =
     Inr (case map_of kvs k of None \<Rightarrow> d | Some v \<Rightarrow> v)"
| "py_get_default _ k d = Inl AttributeError"

definition py_get :: "json \<Rightarrow> string \<Rightarrow> error + json" where
  "py_get x k = py_get_default x k JNull"

text \<open>\<^verbatim>\<open>d.get(key)\<close> for the association list of a dictionary.\<close>

definition dict_get :: "(string \<times> json) list \<Rightarrow> string \<Rightarrow> json" where
  "dict_get kvs k = (case map_of kvs k of None \<Rightarrow> JNull | Some v \<Rightarrow> v)"

text \<open>
  \<^verbatim>\<open>for v in x\<close>: the elements of a list, the keys of a dictionary, the characters
  of a string; nothing else can be iterated.
\<close>

fun py_iter :: "json \<Rightarrow> error + json list" where
  "py_iter (JList xs) = Inr xs"
| "py_iter (JObj kvs) = Inr (map (\<lambda>kv. JStr (fst kv)) kvs)"
| "py_iter (JStr s) = Inr (map (\<lambda>c. JStr [c]) s)"
| "py_iter _ = Inl TypeError"

text \<open>\<^verbatim>\<open>prefix + x\<close> for a string \<open>prefix\<close>.\<close>

fun str_add :: "string \<Rightarrow> json \<Rightarrow> error + string" where
  "str_add p (JStr s) = Inr (p @ s)"
| "str_add p _ = Inl TypeError"

text \<open>
  The integer a value stands for in a comparison with an integer: booleans are the
  integers 0 and 1 in Python, so \<^verbatim>\<open>1 == True\<close> holds.
\<close>

fun num_of :: "json \<Rightarrow> int option" where
  "num_of (JInt i) = Some i"
| "num_of (JBool b) = Some (if b then 1 else 0)"
| "num_of _ = None"

text \<open>\<^verbatim>\<open>n == x\<close> for an integer \<open>n\<close>.\<close>

definition int_eq :: "int \<Rightarrow> json \<Rightarrow> bool" where
  "int_eq n x = (num_of x = Some n)"

text \<open>
  \<^verbatim>\<open>except ExtractorError as e\<close> catches that class only;
  \<^verbatim>\<open>isinstance(e.cause, compat_HTTPError)\<close> then gives access to the status code and
  the body of the response.
\<close>

fun is_extractor_error :: "error \<Rightarrow> bool" where
  "is_extractor_error (ExtractorError m c) = True"
| "is_extractor_error _ = False"

fun http_error_of :: "error \<Rightarrow> (int \<times> string) option" where
  "http_error_of (ExtractorError m (Some (HTTPError code body))) = Some (code, body)"
| "http_error_of _ = None"

section \<open>The host framework\<close>

text \<open>
  A URL is kept as the text it was built from together with the query-string keys that
  \<^verbatim>\<open>_set_query_string\<close> has overridden (the standard library's \<^verbatim>\<open>urlparse\<close>,
  \<^verbatim>\<open>parse_qs\<close> and \<^verbatim>\<open>urlencode\<close> do the textual work).
\<close>

datatype url = Url string "(string \<times> int) list"

datatype request =
    Get url
  | Post string "(string \<times> string option) list"

text \<open>
  What the extractor is given by the framework it runs in (\<^verbatim>\<open>InfoExtractor\<close>, the
  downloader's parameters and the network):
  \<^item> \<open>http\<close>: the outcome of \<^verbatim>\<open>_download_json\<close> for a request, either the parsed
    response or the message and cause of the \<^verbatim>\<open>ExtractorError\<close> it raises;
  \<^item> \<open>received_cookies\<close>: the cookies for the episode API that the HTTP layer stores
    when it receives the response to a request;
  \<^item> \<open>utf8_decode\<close>: the text that the bytes of a body encode, if they encode one
    (\<^verbatim>\<open>bytes.decode()\<close>);
  \<^item> \<open>json_loads\<close>: the JSON parser, with the text of its \<^verbatim>\<open>ValueError\<close> on failure;
  \<^item> \<open>login_info\<close>: the result of \<^verbatim>\<open>_get_login_info()\<close>;
  \<^item> \<open>m3u8_formats\<close>, \<open>sort_formats\<close>: \<^verbatim>\<open>_extract_m3u8_formats\<close> and
    \<^verbatim>\<open>_sort_formats\<close>;
  \<^item> \<open>compat_str\<close>: the text of a value (\<^verbatim>\<open>compat_str(v)\<close>);
  \<^item> \<open>int_of_text\<close>: the integer a text denotes, if any (\<^verbatim>\<open>int(s)\<close>).
\<close>

record host =
  http :: "request \<Rightarrow> (string \<times> cause option) + json"
  received_cookies :: "request \<Rightarrow> (string \<times> string) list"
  utf8_decode :: "string \<Rightarrow> string option"
  json_loads :: "string \<Rightarrow> string + json"
  login_info :: "string option \<times> string option"
  m3u8_formats :: "json \<Rightarrow> error + json list"
  sort_formats :: "json list \<Rightarrow> error + json list"
  compat_str :: "json \<Rightarrow> string"
  int_of_text :: "string \<Rightarrow> int option"

text \<open>
  What changes while the extractor runs: the cookie jar (for the episode API's URL),
  the requests sent so far, and the warnings reported so far.
\<close>

record state =
  cookies :: "(string \<times> string) list"
  calls :: "request list"
  warnings :: "string list"

definition download_json :: "host \<Rightarrow> request \<Rightarrow> state \<Rightarrow> (error + json) \<times> state" where
  "download_json h req s =
     ((case http h req of Inl (m, c) \<Rightarrow> Inl (ExtractorError m c) | Inr j \<Rightarrow> Inr j),
      s\<lparr>calls := calls s @ [req], cookies := received_cookies h req @ cookies s\<rparr>)"

text \<open>
  \<^verbatim>\<open>e.cause.read().decode()\<close>: the body of an HTTP error as a text. The call stands
  inside the \<^verbatim>\<open>except\<close> block, so its \<^verbatim>\<open>UnicodeDecodeError\<close> is not caught.
\<close>

definition read_decode :: "host \<Rightarrow> string \<Rightarrow> error + string" where
  "read_decode h body =
     (case utf8_decode h body of None \<Rightarrow> Inl UnicodeDecodeError | Some t \<Rightarrow> Inr t)"

definition report_warning :: "string \<Rightarrow> state \<Rightarrow> state" where
  "report_warning msg s = s\<lparr>warnings := warnings s @ [msg]\<rparr>"

text \<open>
  Modelled from the spec: \<^verbatim>\<open>_parse_json\<close> of the host framework
  (\<^verbatim>\<open>youtube_dl/extractor/common.py\<close>, not among the sources) "parses the response
  body". How it fails is read off its two call sites: \<^verbatim>\<open>_login\<close> passes
  \<^verbatim>\<open>fatal=False\<close> and tests the result before using it, so a failure there is a
  warning and the result \<^verbatim>\<open>None\<close>; \<^verbatim>\<open>_real_extract\<close> leaves the default, under
  which a failure is an \<^verbatim>\<open>ExtractorError\<close> caused by the parser's \<^verbatim>\<open>ValueError\<close>.
\<close>

definition parse_json ::
  "host \<Rightarrow> string \<Rightarrow> string option \<Rightarrow> bool \<Rightarrow> state \<Rightarrow> (error + json) \<times> state" where
  "parse_json h json_string video_id fatal s =
     (case json_loads h json_string of
        Inr j \<Rightarrow> (Inr j, s)
      | Inl ve \<Rightarrow>
          (let errmsg = (case video_id of None \<Rightarrow> ''None'' | Some v \<Rightarrow> v)
                          @ '': Failed to parse JSON ''
           in if fatal then (Inl (ExtractorError errmsg (Some ValueError)), s)
              else (Inr JNull, report_warning (errmsg @ ve) s)))"

section \<open>RoosterTeethIE: the authenticator\<close>

definition EPISODE_BASE_URL :: string where
  "EPISODE_BASE_URL = ''https://svod-be.roosterteeth.com/api/v1/episodes/''"

definition token_request :: "string \<Rightarrow> string option \<Rightarrow> request" where
  "token_request username password =
     Post ''https://auth.roosterteeth.com/oauth/token''
       [(''client_id'',
           Some ''4338d2b4bdc8db1239360f28e72f0d9ddb1fd01e7a38fbb07b4b1f4ba4564cc5''),
        (''grant_type'', Some ''password''),
        (''username'', Some username),
        (''password'', password)]"

text \<open>
  Lines 72 to 78 of \<^verbatim>\<open>_login\<close>: the text of the warning for a failed exchange whose
  \<^verbatim>\<open>ExtractorError\<close> is \<open>e\<close>.
\<close>

definition login_error_field :: "json \<Rightarrow> error + json" where
  "login_error_field resp =
     (case py_get resp ''extra_info'' of
        Inl e \<Rightarrow> Inl e
      | Inr a \<Rightarrow>
          if truthy a then Inr a
          else (case py_get resp ''error_description'' of
                  Inl e \<Rightarrow> Inl e
                | Inr b \<Rightarrow> if truthy b then Inr b else py_get resp ''error''))"

definition login_warning ::
  "host \<Rightarrow> error \<Rightarrow> state \<Rightarrow> (error + string) \<times> state" where
  "login_warning h e s =
     (let msg = ''Unable to login'' in
      case http_error_of e of
        Some (code, body) \<Rightarrow>
          if code = 401 then
            (case read_decode h body of
               Inl e' \<Rightarrow> (Inl e', s)
             | Inr json_string \<Rightarrow>
            (case parse_json h json_string None False s of
               (Inl e', s1) \<Rightarrow> (Inl e', s1)
             | (Inr resp, s1) \<Rightarrow>
                 if truthy resp then
                   (case login_error_field resp of
                      Inl e' \<Rightarrow> (Inl e', s1)
                    | Inr err \<Rightarrow>
                        if truthy err then
                          (case str_add (msg @ '': '') err of
                             Inl e' \<Rightarrow> (Inl e', s1)
                           | Inr m \<Rightarrow> (Inr m, s1))
                        else (Inr msg, s1))
                 else (Inr msg, s1)))
          else (Inr msg, s)
      | None \<Rightarrow> (Inr msg, s))"

definition login :: "host \<Rightarrow> state \<Rightarrow> (error + unit) \<times> state" where
  "login h s =
     (case login_info h of
        (None, password) \<Rightarrow> (Inr (), s)
      | (Some username, password) \<Rightarrow>
          (case download_json h (token_request username password) s of
             (Inr j, s1) \<Rightarrow> (Inr (), s1)
           | (Inl e, s1) \<Rightarrow>
               if is_extractor_error e then
                 (case login_warning h e s1 of
                    (Inl e', s2) \<Rightarrow> (Inl e', s2)
                  | (Inr msg, s2) \<Rightarrow> (Inr (), report_warning msg s2))
               else (Inl e, s1)))"

definition real_initialize :: "host \<Rightarrow> state \<Rightarrow> (error + unit) \<times> state" where
  "real_initialize h s =
     (if map_of (cookies s) ''rt_access_token'' \<noteq> None then (Inr (), s)
      else login h s)"

section \<open>RoosterTeethIE: resolving an episode\<close>

record thumbnail =
  thumbnail_id :: string
  thumbnail_url :: json

record info =
  video_id :: string
  display_id :: string
  title :: json
  description :: json
  thumbnails :: "thumbnail list"
  series :: json
  season_number :: "int option"
  season_id :: json
  episode :: json
  episode_number :: "int option"
  episode_id :: "string option"
  formats :: "json list"
  channel_id :: json
  duration :: "int option"

text \<open>
  Modelled from the spec: \<^verbatim>\<open>int_or_none\<close> of \<^verbatim>\<open>youtube_dl/utils.py\<close> (not among
  the sources). "Numeric fields are parsed permissively: a missing or non-numeric source
  value yields an absent result rather than a failure." A missing value arrives as
  \<^verbatim>\<open>None\<close>, because the caller reads it with \<^verbatim>\<open>.get\<close>. The numeric values are the
  integers (with the booleans, which are integers in Python) and the texts that denote
  an integer.
\<close>

fun numeric :: "host \<Rightarrow> json \<Rightarrow> bool" where
  "numeric h (JInt i) = True"
| "numeric h (JBool b) = True"
| "numeric h (JStr s) = (int_of_text h s \<noteq> None)"
| "numeric h _ = False"

fun int_or_none :: "host \<Rightarrow> json \<Rightarrow> int option" where
  "int_or_none h (JInt i) = Some i"
| "int_or_none h (JBool b) = Some (if b then 1 else 0)"
| "int_or_none h (JStr s) = int_of_text h s"
| "int_or_none h _ = None"

text \<open>
  Modelled from the spec: \<^verbatim>\<open>str_or_none\<close> of \<^verbatim>\<open>youtube_dl/utils.py\<close> (not among
  the sources), used for the record's \<open>episode_id\<close> "(UUID)": the text of the value,
  absent when the value is.
\<close>

definition str_or_none :: "host \<Rightarrow> json \<Rightarrow> string option" where
  "str_or_none h v = (if v = JNull then None else Some (compat_str h v))"

text \<open>
  Lines 90 to 99 of \<^verbatim>\<open>_real_extract\<close>: the manifest URL, with the handling of a
  failed fetch. Only an \<^verbatim>\<open>ExtractorError\<close> is caught; an error of the subscripts
  passes through.
\<close>

definition videos_request :: "string \<Rightarrow> request" where
  "videos_request api_episode_url = Get (Url (api_episode_url @ ''/videos'') [])"

text \<open>\<^verbatim>\<open>j['data'][0]\<close>.\<close>

definition first_data :: "json \<Rightarrow> error + json" where
  "first_data j = (case subscript j ''data'' of Inl e \<Rightarrow> Inl e | Inr d \<Rightarrow> index0 d)"

definition manifest_of :: "json \<Rightarrow> error + json" where
  "manifest_of j =
     (case first_data j of
        Inl e \<Rightarrow> Inl e
      | Inr v \<Rightarrow>
          (case subscript v ''attributes'' of
             Inl e \<Rightarrow> Inl e
           | Inr a \<Rightarrow> subscript a ''url''))"

definition manifest_url ::
  "host \<Rightarrow> string \<Rightarrow> string \<Rightarrow> state \<Rightarrow> (error + json) \<times> state" where
  "manifest_url h disp api_episode_url s =
     (case download_json h (videos_request api_episode_url) s of
        (Inr j, s1) \<Rightarrow> (manifest_of j, s1)
      | (Inl e, s1) \<Rightarrow>
          (case http_error_of e of
             Some (code, body) \<Rightarrow>
               if code = 403 then
                 (case read_decode h body of
                    Inl e' \<Rightarrow> (Inl e', s1)
                  | Inr json_string \<Rightarrow>
                 (case parse_json h json_string (Some disp) True s1 of
                    (Inl e', s2) \<Rightarrow> (Inl e', s2)
                  | (Inr resp, s2) \<Rightarrow>
                      (case py_get resp ''access'' of
                         Inl e' \<Rightarrow> (Inl e', s2)
                       | Inr a \<Rightarrow>
                           if a = JBool False then
                             (Inl (LoginRequired
                                     (disp @ '' is only available for FIRST members'')), s2)
                           else (Inl e, s2))))
               else (Inl e, s1)
           | None \<Rightarrow> (Inl e, s1)))"

text \<open>Lines 112 to 122: the two loops that build the thumbnails.\<close>

definition thumbnail_tags :: "string list" where
  "thumbnail_tags = [''thumb'', ''small'', ''medium'', ''large'']"

fun tag_loop :: "json \<Rightarrow> string list \<Rightarrow> error + thumbnail list" where
  "tag_loop img_attributes [] = Inr []"
| "tag_loop img_attributes (k # ks) =
     (case py_get img_attributes k of
        Inl e \<Rightarrow> Inl e
      | Inr img_url \<Rightarrow>
          (case tag_loop img_attributes ks of
             Inl e \<Rightarrow> Inl e
           | Inr ts \<Rightarrow>
               Inr (if truthy img_url
                    then \<lparr>thumbnail_id = k, thumbnail_url = img_url\<rparr> # ts
                    else ts)))"

definition image_thumbnails :: "json \<Rightarrow> error + thumbnail list" where
  "image_thumbnails img =
     (case py_get img ''type'' of
        Inl e \<Rightarrow> Inl e
      | Inr t \<Rightarrow>
          if t = JStr ''episode_image'' then
            (case py_get img ''attributes'' of
               Inl e \<Rightarrow> Inl e
             | Inr a \<Rightarrow> tag_loop (py_or a (JObj [])) thumbnail_tags)
          else Inr [])"

fun image_loop :: "json list \<Rightarrow> error + thumbnail list" where
  "image_loop [] = Inr []"
| "image_loop (img # imgs) =
     (case image_thumbnails img of
        Inl e \<Rightarrow> Inl e
      | Inr ts \<Rightarrow>
          (case image_loop imgs of
             Inl e \<Rightarrow> Inl e
           | Inr rest \<Rightarrow> Inr (ts @ rest)))"

definition episode_images :: "json \<Rightarrow> error + json list" where
  "episode_images ep =
     (case py_get_default ep ''included'' (JObj []) of
        Inl e \<Rightarrow> Inl e
      | Inr inc \<Rightarrow>
          (case py_get_default inc ''images'' (JList []) of
             Inl e \<Rightarrow> Inl e
           | Inr imgs \<Rightarrow> py_iter imgs))"

text \<open>Line 109: \<^verbatim>\<open>attributes.get('title') or attributes['display_title']\<close>.\<close>

definition title_of :: "(string \<times> json) list \<Rightarrow> error + json" where
  "title_of attrs =
     (if truthy (dict_get attrs ''title'') then Inr (dict_get attrs ''title'')
      else subscript (JObj attrs) ''display_title'')"

text \<open>
  Lines 105 to 139, from the metadata response \<open>j\<close> on. \<^verbatim>\<open>attributes.get\<close> raises
  \<^verbatim>\<open>AttributeError\<close> unless \<open>attributes\<close> is a dictionary; once it is one, none of
  the later \<^verbatim>\<open>.get\<close> calls on it can fail.
\<close>

definition episode_info :: "host \<Rightarrow> string \<Rightarrow> json list \<Rightarrow> json \<Rightarrow> error + info" where
  "episode_info h disp fmts j =
     (case first_data j of
        Inl e \<Rightarrow> Inl e
      | Inr ep \<Rightarrow>
     (case subscript ep ''attributes'' of
        Inl e \<Rightarrow> Inl e
      | Inr attributes \<Rightarrow>
     (case attributes of
        JObj attrs \<Rightarrow>
          (case title_of attrs of
             Inl e \<Rightarrow> Inl e
           | Inr t \<Rightarrow>
          (case subscript ep ''id'' of
             Inl e \<Rightarrow> Inl e
           | Inr i \<Rightarrow>
          (case episode_images ep of
             Inl e \<Rightarrow> Inl e
           | Inr images \<Rightarrow>
          (case image_loop images of
             Inl e \<Rightarrow> Inl e
           | Inr ths \<Rightarrow>
          (case py_get ep ''uuid'' of
             Inl e \<Rightarrow> Inl e
           | Inr uuid \<Rightarrow>
               Inr \<lparr>video_id = compat_str h i,
                    display_id = disp,
                    title = t,
                    description =
                      py_or (dict_get attrs ''description'') (dict_get attrs ''caption''),
                    thumbnails = ths,
                    series = dict_get attrs ''show_title'',
                    season_number = int_or_none h (dict_get attrs ''season_number''),
                    season_id = dict_get attrs ''season_id'',
                    episode = t,
                    episode_number = int_or_none h (dict_get attrs ''number''),
                    episode_id = str_or_none h uuid,
                    formats = fmts,
                    channel_id = dict_get attrs ''channel_id'',
                    duration = int_or_none h (dict_get attrs ''length'')\<rparr>)))))
      | _ \<Rightarrow> Inl AttributeError)))"

definition episode_request :: "string \<Rightarrow> request" where
  "episode_request api_episode_url = Get (Url api_episode_url [])"

definition real_extract :: "host \<Rightarrow> string \<Rightarrow> state \<Rightarrow> (error + info) \<times> state" where
  "real_extract h disp s =
     (let api_episode_url = EPISODE_BASE_URL @ disp in
      case manifest_url h disp api_episode_url s of
        (Inl e, s1) \<Rightarrow> (Inl e, s1)
      | (Inr m3u8_url, s1) \<Rightarrow>
     (case m3u8_formats h m3u8_url of
        Inl e \<Rightarrow> (Inl e, s1)
      | Inr fs \<Rightarrow>
     (case sort_formats h fs of
        Inl e \<Rightarrow> (Inl e, s1)
      | Inr fmts \<Rightarrow>
     (case download_json h (episode_request api_episode_url) s1 of
        (Inl e, s2) \<Rightarrow> (Inl e, s2)
      | (Inr j, s2) \<Rightarrow> (episode_info h disp fmts j, s2)))))"

section \<open>RoosterTeethSeriesIE: resolving a series\<close>

definition domain :: string where
  "domain = ''https://roosterteeth.com''"

definition api_domain :: string where
  "api_domain = ''https://svod-be.roosterteeth.com''"

fun set_query_string :: "url \<Rightarrow> string \<Rightarrow> int \<Rightarrow> url" where
  "set_query_string (Url u qs) key v = Url u (AList.update key v qs)"

definition add_per_page :: "url \<Rightarrow> int option \<Rightarrow> url" where
  "add_per_page u count =
     set_query_string u ''per_page'' (case count of None \<Rightarrow> 1000 | Some c \<Rightarrow> c)"

text \<open>The URL requested for a page of a season's listing (line 221).\<close>

definition page_request :: "string \<Rightarrow> int \<Rightarrow> request" where
  "page_request episode_link page =
     Get (add_per_page (set_query_string (Url episode_link []) ''page'' page) None)"

text \<open>
  \<^verbatim>\<open>a < b\<close> where \<open>a\<close> is a number (Python 3: \<^verbatim>\<open>TypeError\<close> unless \<open>b\<close> is a
  number too). The extractor only compares a value that has passed the test
  \<^verbatim>\<open>page == se_page['page']\<close>.
\<close>

definition num_less :: "json \<Rightarrow> json \<Rightarrow> error + bool" where
  "num_less a b =
     (case num_of a of
        None \<Rightarrow> Inl TypeError
      | Some x \<Rightarrow> (case num_of b of None \<Rightarrow> Inl TypeError | Some y \<Rightarrow> Inr (x < y)))"

text \<open>Lines 227 and 228: the references of one page.\<close>

definition entry_of :: "json \<Rightarrow> error + string" where
  "entry_of link =
     (case subscript link ''canonical_links'' of
        Inl e \<Rightarrow> Inl e
      | Inr c \<Rightarrow>
          (case subscript c ''self'' of
             Inl e \<Rightarrow> Inl e
           | Inr sf \<Rightarrow> str_add domain sf))"

fun link_loop :: "json list \<Rightarrow> error + string list" where
  "link_loop [] = Inr []"
| "link_loop (link # links) =
     (case entry_of link of
        Inl e \<Rightarrow> Inl e
      | Inr entry \<Rightarrow>
          (case link_loop links of
             Inl e \<Rightarrow> Inl e
           | Inr rest \<Rightarrow> Inr (entry # rest)))"

definition page_entries :: "json \<Rightarrow> error + string list" where
  "page_entries se_page =
     (case subscript se_page ''data'' of
        Inl e \<Rightarrow> Inl e
      | Inr d \<Rightarrow> (case py_iter d of Inl e \<Rightarrow> Inl e | Inr links \<Rightarrow> link_loop links))"

text \<open>
  \<^verbatim>\<open>get_season_episodes_pages\<close> calls itself for the next page. The first argument
  is the number of nested calls that the interpreter's stack still has room for: with
  none left the call raises \<^verbatim>\<open>RecursionError\<close>. The label of the download,
  \<^verbatim>\<open>"_".join([season_slug, str(page)])\<close>, is built before the request is sent and
  raises \<^verbatim>\<open>TypeError\<close> unless the slug is a text; the label itself only shows in
  progress messages.
\<close>

fun get_season_episodes_pages ::
  "nat \<Rightarrow> host \<Rightarrow> string \<Rightarrow> json \<Rightarrow> int option \<Rightarrow> state
     \<Rightarrow> (error + string list) \<times> state" where
  "get_season_episodes_pages 0 h episode_link season_slug page_arg s =
     (Inl RecursionError, s)"
| "get_season_episodes_pages (Suc depth) h episode_link season_slug page_arg s =
     (let page = (case page_arg of None \<Rightarrow> 1 | Some p \<Rightarrow> p) in
      case season_slug of
        JStr slug \<Rightarrow>
     (case download_json h (page_request episode_link page) s of
        (Inl e, s1) \<Rightarrow> (Inl e, s1)
      | (Inr se_page, s1) \<Rightarrow>
     (case subscript se_page ''page'' of
        Inl e \<Rightarrow> (Inl e, s1)
      | Inr pg \<Rightarrow>
          if \<not> int_eq page pg then (Inl AssertionError, s1)
          else
     (case page_entries se_page of
        Inl e \<Rightarrow> (Inl e, s1)
      | Inr entries \<Rightarrow>
     (case subscript se_page ''total_pages'' of
        Inl e \<Rightarrow> (Inl e, s1)
      | Inr total_pages \<Rightarrow>
     (case num_less pg total_pages of
        Inl e \<Rightarrow> (Inl e, s1)
      | Inr False \<Rightarrow> (Inr entries, s1)
      | Inr True \<Rightarrow>
          (case get_season_episodes_pages depth h episode_link season_slug
                  (Some (page + 1)) s1 of
             (Inl e, s2) \<Rightarrow> (Inl e, s2)
           | (Inr more_entries, s2) \<Rightarrow> (Inr (entries @ more_entries), s2)))))))
      | _ \<Rightarrow> (Inl TypeError, s))"

text \<open>\<^verbatim>\<open>url_result(entry)\<close>: a reference that the host resolves later.\<close>

datatype reference = UrlResult string

record playlist =
  playlist_type :: string
  playlist_id :: string
  playlist_title :: json
  playlist_entries :: "reference list"

text \<open>Lines 256 to 263: the loop over the seasons.\<close>

definition season_link :: "json \<Rightarrow> error + string" where
  "season_link season =
     (case subscript season ''links'' of
        Inl e \<Rightarrow> Inl e
      | Inr ls \<Rightarrow>
          (case subscript ls ''episodes'' of
             Inl e \<Rightarrow> Inl e
           | Inr ep \<Rightarrow> str_add api_domain ep))"

definition season_slug_of :: "json \<Rightarrow> error + json" where
  "season_slug_of season =
     (case subscript season ''attributes'' of
        Inl e \<Rightarrow> Inl e
      | Inr a \<Rightarrow> subscript a ''slug'')"

fun season_loop ::
  "nat \<Rightarrow> host \<Rightarrow> json list \<Rightarrow> state \<Rightarrow> (error + string list) \<times> state" where
  "season_loop depth h [] s = (Inr [], s)"
| "season_loop depth h (season # seasons) s =
     (case season_link season of
        Inl e \<Rightarrow> (Inl e, s)
      | Inr ep_link \<Rightarrow>
     (case season_slug_of season of
        Inl e \<Rightarrow> (Inl e, s)
      | Inr slug \<Rightarrow>
     (case get_season_episodes_pages depth h ep_link slug None s of
        (Inl e, s1) \<Rightarrow> (Inl e, s1)
      | (Inr es, s1) \<Rightarrow>
     (case season_loop depth h seasons s1 of
        (Inl e, s2) \<Rightarrow> (Inl e, s2)
      | (Inr rest, s2) \<Rightarrow> (Inr (es @ rest), s2)))))"

definition show_request :: "string \<Rightarrow> request" where
  "show_request show_id = Get (Url (api_domain @ ''/api/v1/shows/'' @ show_id) [])"

definition seasons_link :: "json \<Rightarrow> error + string" where
  "seasons_link data0 =
     (case subscript data0 ''links'' of
        Inl e \<Rightarrow> Inl e
      | Inr ls \<Rightarrow>
          (case subscript ls ''seasons'' of
             Inl e \<Rightarrow> Inl e
           | Inr sn \<Rightarrow> str_add api_domain sn))"

definition show_title :: "json \<Rightarrow> error + json" where
  "show_title data0 =
     (case subscript data0 ''attributes'' of
        Inl e \<Rightarrow> Inl e
      | Inr a \<Rightarrow> subscript a ''title'')"

definition data_items :: "json \<Rightarrow> error + json list" where
  "data_items j = (case subscript j ''data'' of Inl e \<Rightarrow> Inl e | Inr d \<Rightarrow> py_iter d)"

definition series_real_extract ::
  "nat \<Rightarrow> host \<Rightarrow> string \<Rightarrow> state \<Rightarrow> (error + playlist) \<times> state" where
  "series_real_extract depth h show_id s =
     (case download_json h (show_request show_id) s of
        (Inl e, s1) \<Rightarrow> (Inl e, s1)
      | (Inr series_json, s1) \<Rightarrow>
     (case first_data series_json of
        Inl e \<Rightarrow> (Inl e, s1)
      | Inr data0 \<Rightarrow>
     (case seasons_link data0 of
        Inl e \<Rightarrow> (Inl e, s1)
      | Inr link \<Rightarrow>
     (case download_json h (Get (Url link [])) s1 of
        (Inl e, s2) \<Rightarrow> (Inl e, s2)
      | (Inr seasons_json, s2) \<Rightarrow>
     (case data_items seasons_json of
        Inl e \<Rightarrow> (Inl e, s2)
      | Inr seasons \<Rightarrow>
     (case season_loop depth h seasons s2 of
        (Inl e, s3) \<Rightarrow> (Inl e, s3)
      | (Inr entries, s3) \<Rightarrow>
     (case show_title data0 of
        Inl e \<Rightarrow> (Inl e, s3)
      | Inr t \<Rightarrow>
          (Inr \<lparr>playlist_type = ''playlist'',
                playlist_id = show_id,
                playlist_title = t,
                playlist_entries = map UrlResult entries\<rparr>, s3))))))))"

section \<open>A backend with stable page counters\<close>

text \<open>
  The backend answers the request for page \<open>p\<close> of a listing well when the response
  declares the page number \<open>p\<close> and the total \<open>total\<close>, and its entries can be read.
\<close>

definition well_paged :: "host \<Rightarrow> string \<Rightarrow> int \<Rightarrow> int \<Rightarrow> bool" where
  "well_paged h episode_link total_pages p =
     (case http h (page_request episode_link p) of
        Inl _ \<Rightarrow> False
      | Inr se_page \<Rightarrow>
          subscript se_page ''page'' = Inr (JInt p) \<and>
          subscript se_page ''total_pages'' = Inr (JInt total_pages) \<and>
          (case page_entries se_page of Inl _ \<Rightarrow> False | Inr _ \<Rightarrow> True))"

text \<open>The entries of page \<open>p\<close> of a listing, in the order of the page.\<close>

definition entries_at :: "host \<Rightarrow> string \<Rightarrow> int \<Rightarrow> string list" where
  "entries_at h episode_link p =
     (case http h (page_request episode_link p) of
        Inl _ \<Rightarrow> []
      | Inr se_page \<Rightarrow> (case page_entries se_page of Inl _ \<Rightarrow> [] | Inr es \<Rightarrow> es))"

text \<open>The state after the requests \<open>reqs\<close> have been sent, in that order.\<close>

definition fetch_all :: "host \<Rightarrow> request list \<Rightarrow> state \<Rightarrow> state" where
  "fetch_all h reqs s = foldl (\<lambda>s' r. snd (download_json h r s')) s reqs"

text \<open>
  For a season of the seasons listing: the link of its episode listing, the total that
  page 1 of the listing declares, and the pages \<open>1..total_pages\<close> of the walk, where
  page 1 is always one of them (an empty season may declare a total of 0).
\<close>

definition link_of :: "json \<Rightarrow> string" where
  "link_of season = (case season_link season of Inl _ \<Rightarrow> [] | Inr l \<Rightarrow> l)"

definition declared_total :: "host \<Rightarrow> string \<Rightarrow> int" where
  "declared_total h episode_link =
     (case http h (page_request episode_link 1) of
        Inl _ \<Rightarrow> 0
      | Inr se_page \<Rightarrow>
          (case subscript se_page ''total_pages'' of Inr (JInt t) \<Rightarrow> t | _ \<Rightarrow> 0))"

definition season_pages :: "host \<Rightarrow> json \<Rightarrow> int list" where
  "season_pages h season = [1..max 1 (declared_total h (link_of season))]"

definition season_entries :: "host \<Rightarrow> json \<Rightarrow> string list" where
  "season_entries h season =
     concat (map (entries_at h (link_of season)) (season_pages h season))"

definition season_requests :: "host \<Rightarrow> json \<Rightarrow> request list" where
  "season_requests h season = map (page_request (link_of season)) (season_pages h season)"

text \<open>
  A season is stable when its link and slug are texts, every page of its walk is
  answered well with the same total, and the call stack has room for the walk.
\<close>

definition stable_season :: "nat \<Rightarrow> host \<Rightarrow> json \<Rightarrow> bool" where
  "stable_season depth h season =
     (case season_link season of
        Inl _ \<Rightarrow> False
      | Inr l \<Rightarrow>
          (case season_slug_of season of
             Inr (JStr slug) \<Rightarrow>
               list_all (well_paged h l (declared_total h l)) (season_pages h season) \<and>
               length (season_pages h season) \<le> depth
           | _ \<Rightarrow> False))"

section \<open>The thumbnails as the specification describes them\<close>

text \<open>
  "Thumbnails are built only from entries in \<^verbatim>\<open>included.images\<close> whose \<^verbatim>\<open>type\<close>
  equals \<^verbatim>\<open>episode_image\<close>, iterating the fixed tag list thumb, small, medium, large
  and including only tags present with a non-empty URL value, each becoming one
  thumbnail with \<^verbatim>\<open>id\<close> = tag name." A value is non-empty when Python takes it
  for true, which for a text means that it is not the empty text.
\<close>

definition spec_tag_thumbnail :: "(string \<times> json) list \<Rightarrow> string \<Rightarrow> thumbnail list" where
  "spec_tag_thumbnail a k =
     (case map_of a k of
        None \<Rightarrow> []
      | Some v \<Rightarrow> if truthy v then [\<lparr>thumbnail_id = k, thumbnail_url = v\<rparr>] else [])"

definition spec_thumbnails :: "json \<Rightarrow> thumbnail list" where
  "spec_thumbnails img =
     (case img of
        JObj kvs \<Rightarrow>
          if map_of kvs ''type'' = Some (JStr ''episode_image'') then
            (case map_of kvs ''attributes'' of
               Some (JObj a) \<Rightarrow>
                 concat (map (spec_tag_thumbnail a) [''thumb'', ''small'', ''medium'', ''large''])
             | _ \<Rightarrow> [])
          else []
      | _ \<Rightarrow> [])"

section \<open>Example hosts and responses\<close>

text \<open>
  Concrete hosts on which the properties below are exercised. \<open>null_host\<close> answers
  every request with an HTTP 404 and has no credential configured; the other hosts
  change what their scenario needs. The bodies of the error responses below are ASCII,
  which decodes to itself; only the host's parser reads them, so they are written
  without their double quotes.
\<close>

definition state0 :: state where
  "state0 = \<lparr>cookies = [], calls = [], warnings = []\<rparr>"

definition null_host :: host where
  "null_host =
     \<lparr>http = (\<lambda>r. Inl (''HTTP Error 404: Not Found'', Some (HTTPError 404 ''''))),
      received_cookies = (\<lambda>r. []),
      utf8_decode = (\<lambda>b. Some b),
      json_loads = (\<lambda>t. Inl ''No JSON object could be decoded''),
      login_info = (None, None),
      m3u8_formats = (\<lambda>u. Inr [JObj [(''format_id'', JStr ''hls-1'')]]),
      sort_formats = (\<lambda>fs. Inr fs),
      compat_str = (\<lambda>v. case v of JStr t \<Rightarrow> t | _ \<Rightarrow> ''9156''),
      int_of_text = (\<lambda>t. None)\<rparr>"

definition member_host :: host where
  "member_host = null_host
     \<lparr>login_info := (Some ''user'', Some ''secret''),
      http := (\<lambda>r. if r = token_request ''user'' (Some ''secret'')
                     then Inr (JObj [(''access_token'', JStr ''abc'')])
                     else Inl (''HTTP Error 404: Not Found'', Some (HTTPError 404 ''''))),
      received_cookies := (\<lambda>r. if r = token_request ''user'' (Some ''secret'')
                     then [(''rt_access_token'', ''abc'')] else [])\<rparr>"

definition forgetful_host :: host where
  "forgetful_host = member_host\<lparr>received_cookies := (\<lambda>r. [])\<rparr>"

definition failing_login_host :: "int \<Rightarrow> string \<Rightarrow> string + json \<Rightarrow> host" where
  "failing_login_host code body parsed = null_host
     \<lparr>login_info := (Some ''user'', Some ''wrong''),
      http := (\<lambda>r. if r = token_request ''user'' (Some ''wrong'')
                     then Inl (''HTTP Error'', Some (HTTPError code body))
                     else Inl (''HTTP Error 404: Not Found'', Some (HTTPError 404 ''''))),
      json_loads := (\<lambda>t. if t = body then parsed else Inl ''No JSON object could be decoded'')\<rparr>"

definition grant_error :: "(string \<times> json) list" where
  "grant_error = [(''error_description'', JStr ''Invalid credentials''),
                  (''error'', JStr ''invalid_grant'')]"

definition rejected_401 :: host where
  "rejected_401 = failing_login_host 401 ''{error_description:Invalid credentials,error:invalid_grant}''
                    (Inr (JObj grant_error))"

definition garbled_401 :: host where
  "garbled_401 = failing_login_host 401 ''<html>'' (Inl ''Expecting value'')"

definition rejected_400 :: host where
  "rejected_400 = failing_login_host 400 ''{error:invalid_grant}''
                    (Inr (JObj [(''error'', JStr ''invalid_grant'')]))"

definition forbidden_host :: "string \<Rightarrow> string \<Rightarrow> string + json \<Rightarrow> host" where
  "forbidden_host disp body parsed = null_host
     \<lparr>http := (\<lambda>r. if r = videos_request (EPISODE_BASE_URL @ disp)
                     then Inl (''HTTP Error 403: Forbidden'', Some (HTTPError 403 body))
                     else Inl (''HTTP Error 404: Not Found'', Some (HTTPError 404 ''''))),
      json_loads := (\<lambda>t. if t = body then parsed else Inl ''No JSON object could be decoded'')\<rparr>"

definition members_only_host :: host where
  "members_only_host =
     forbidden_host ''rt-docs-part-one'' ''{access:false}'' (Inr (JObj [(''access'', JBool False)]))"

definition garbled_403_host :: host where
  "garbled_403_host = forbidden_host ''rt-docs-part-one'' ''<html>'' (Inl ''Expecting value'')"

definition manifest_response :: json where
  "manifest_response =
     JObj [(''data'', JList [JObj [(''attributes'',
              JObj [(''url'', JStr ''https://rtv3-video.roosterteeth.com/9156/index.m3u8'')])]])]"

definition episode_response :: "(string \<times> json) list \<Rightarrow> json list \<Rightarrow> json" where
  "episode_response attrs imgs =
     JObj [(''data'', JList [JObj [(''id'', JInt 9156),
                                   (''uuid'', JStr ''b8d2ff1c''),
                                   (''attributes'', JObj attrs),
                                   (''included'', JObj [(''images'', JList imgs)])]])]"

definition public_host :: "string \<Rightarrow> json \<Rightarrow> host" where
  "public_host disp metadata = null_host
     \<lparr>http := (\<lambda>r. if r = videos_request (EPISODE_BASE_URL @ disp) then Inr manifest_response
                     else if r = episode_request (EPISODE_BASE_URL @ disp) then Inr metadata
                     else Inl (''HTTP Error 404: Not Found'', Some (HTTPError 404 '''')))\<rparr>"

definition two_images :: "json list" where
  "two_images =
     [JObj [(''type'', JStr ''episode_image''), (''attributes'', JObj [(''thumb'', JStr ''A'')])],
      JObj [(''type'', JStr ''other''), (''attributes'', JObj [(''thumb'', JStr ''B'')])]]"

definition announcement :: "(string \<times> json) list" where
  "announcement =
     [(''title'', JStr ''Million Dollars, But... The Game Announcement''),
      (''display_title'', JStr ''S2:E10 - The Game Announcement''),
      (''description'', JStr ''Introducing the card game''),
      (''show_title'', JStr ''Million Dollars, But...''),
      (''season_number'', JInt 2),
      (''number'', JInt 10),
      (''length'', JInt 145)]"

definition untitled :: "(string \<times> json) list" where
  "untitled = [(''display_title'', JStr ''X''), (''caption'', JStr ''A short caption''),
               (''season_number'', JStr ''two''), (''length'', JList [])]"

definition empty_title :: "(string \<times> json) list" where
  "empty_title = [(''title'', JStr []), (''display_title'', JStr ''X'')]"

definition nameless :: "(string \<times> json) list" where
  "nameless = [(''title'', JStr []), (''description'', JStr ''No name at all'')]"

definition garbled_numbers :: "(string \<times> json) list" where
  "garbled_numbers =
     [(''title'', JStr ''Million Dollars, But... The Game Announcement''),
      (''display_title'', JStr ''S2:E10 - The Game Announcement''),
      (''description'', JStr ''Introducing the card game''),
      (''show_title'', JStr ''Million Dollars, But...''),
      (''season_number'', JStr ''two''),
      (''length'', JList [])]"

definition listing_page :: "int \<Rightarrow> int \<Rightarrow> string list \<Rightarrow> json" where
  "listing_page p total_pages selfs =
     JObj [(''page'', JInt p), (''total_pages'', JInt total_pages),
           (''data'', JList (map (\<lambda>sf. JObj [(''canonical_links'', JObj [(''self'', JStr sf)])])
                               selfs))]"

definition lets_play :: string where
  "lets_play = ''https://svod-be.roosterteeth.com/api/v1/seasons/lets-play-2019/episodes''"

definition three_pages_host :: host where
  "three_pages_host = null_host
     \<lparr>http := (\<lambda>r. if r = page_request lets_play 1
                       then Inr (listing_page 1 3 [''/watch/lets-play-2019-1'', ''/watch/lets-play-2019-2''])
                     else if r = page_request lets_play 2
                       then Inr (listing_page 2 3 [''/watch/lets-play-2019-3''])
                     else if r = page_request lets_play 3
                       then Inr (listing_page 3 3 [''/watch/lets-play-2019-4''])
                     else Inl (''HTTP Error 404: Not Found'', Some (HTTPError 404 '''')))\<rparr>"

definition past_the_end_host :: host where
  "past_the_end_host = null_host
     \<lparr>http := (\<lambda>r. if r = page_request lets_play 2 then Inr (listing_page 2 1 [])
                     else Inl (''HTTP Error 404: Not Found'', Some (HTTPError 404 '''')))\<rparr>"

definition wrong_page_host :: host where
  "wrong_page_host = null_host
     \<lparr>http := (\<lambda>r. if r = page_request lets_play 1
                       then Inr (listing_page 2 3 [''/watch/lets-play-2019-3''])
                     else Inl (''HTTP Error 404: Not Found'', Some (HTTPError 404 '''')))\<rparr>"

definition season_json :: "string \<Rightarrow> string \<Rightarrow> json" where
  "season_json episodes_path slug =
     JObj [(''links'', JObj [(''episodes'', JStr episodes_path)]),
           (''attributes'', JObj [(''slug'', JStr slug)])]"

definition lets_play_season :: json where
  "lets_play_season = season_json ''/api/v1/seasons/lets-play-2019/episodes'' ''lets-play-2019''"

definition specials :: string where
  "specials = ''https://svod-be.roosterteeth.com/api/v1/seasons/lets-play-specials/episodes''"

definition specials_season :: json where
  "specials_season =
     season_json ''/api/v1/seasons/lets-play-specials/episodes'' ''lets-play-specials''"

definition empty_season_host :: host where
  "empty_season_host = null_host
     \<lparr>http := (\<lambda>r. if r = page_request specials 1 then Inr (listing_page 1 0 [])
                     else Inl (''HTTP Error 404: Not Found'', Some (HTTPError 404 '''')))\<rparr>"

definition lets_play_show :: json where
  "lets_play_show =
     JObj [(''data'', JList [JObj [(''attributes'', JObj [(''title'', JStr ''Lets Play'')]),
                                   (''links'', JObj [(''seasons'',
                                      JStr ''/api/v1/shows/lets-play/seasons'')])]])]"

definition lets_play_seasons :: json where
  "lets_play_seasons = JObj [(''data'', JList [lets_play_season, specials_season])]"

definition late_wrong_page_host :: host where
  "late_wrong_page_host = null_host
     \<lparr>http := (\<lambda>r. if r = show_request ''lets-play'' then Inr lets_play_show
                     else if r = Get (Url ''https://svod-be.roosterteeth.com/api/v1/shows/lets-play/seasons'' [])
                       then Inr (JObj [(''data'', JList [specials_season, lets_play_season])])
                     else if r = page_request specials 1 then Inr (listing_page 1 0 [])
                     else if r = page_request lets_play 1
                       then Inr (listing_page 1 3 [''/watch/lets-play-2019-1'', ''/watch/lets-play-2019-2''])
                     else if r = page_request lets_play 2
                       then Inr (listing_page 3 3 [''/watch/lets-play-2019-4''])
                     else Inl (''HTTP Error 404: Not Found'', Some (HTTPError 404 '''')))\<rparr>"

definition series_host :: host where
  "series_host = null_host
     \<lparr>http := (\<lambda>r. if r = show_request ''lets-play'' then Inr lets_play_show
                     else if r = Get (Url ''https://svod-be.roosterteeth.com/api/v1/shows/lets-play/seasons'' [])
                       then Inr lets_play_seasons
                     else if r = page_request specials 1 then Inr (listing_page 1 0 [])
                     else http three_pages_host r)\<rparr>"

section \<open>Properties of the authenticator\<close>

lemma login_anonymous: "fst (login_info h) = None \<Longrightarrow> login h s = (Inr (), s)"
  by (cases "login_info h") (simp add: login_def)

text \<open>
  C6, as amended. \<^verbatim>\<open>_real_initialize\<close> sends no request and returns without error
  whenever the session cookie \<^verbatim>\<open>rt_access_token\<close> is already in the jar, and likewise
  whenever no username is configured. Consequently, after a login whose answer stored
  the session cookie (one request), a second call sends nothing more. After a
  successful exchange whose answer stored no such cookie, the second call sends the
  exchange again: \<^verbatim>\<open>_login\<close> itself keeps nothing of the answer.
\<close>

theorem ensure_session_noop:
  "(map_of (cookies s) ''rt_access_token'' \<noteq> None \<longrightarrow>
      real_initialize h s = (Inr (), s) \<and> calls (snd (real_initialize h s)) = calls s) \<and>
   (fst (login_info h) = None \<longrightarrow>
      real_initialize h s = (Inr (), s) \<and> calls (snd (real_initialize h s)) = calls s) \<and>
   (map_of (cookies s) ''rt_access_token'' = None \<and> login_info h = (Some u, p) \<and>
    http h (token_request u p) = Inr j \<and>
    map_of (received_cookies h (token_request u p)) ''rt_access_token'' \<noteq> None \<longrightarrow>
      fst (real_initialize h s) = Inr () \<and>
      calls (snd (real_initialize h s)) = calls s @ [token_request u p] \<and>
      real_initialize h (snd (real_initialize h s)) = (Inr (), snd (real_initialize h s))) \<and>
   (map_of (cookies s) ''rt_access_token'' = None \<and> login_info h = (Some u, p) \<and>
    http h (token_request u p) = Inr j \<and>
    map_of (received_cookies h (token_request u p)) ''rt_access_token'' = None \<longrightarrow>
      fst (real_initialize h s) = Inr () \<and>
      fst (real_initialize h (snd (real_initialize h s))) = Inr () \<and>
      calls (snd (real_initialize h (snd (real_initialize h s)))) =
        calls s @ [token_request u p, token_request u p])"
proof (intro conjI impI)
  assume "map_of (cookies s) ''rt_access_token'' \<noteq> None"
  then show "real_initialize h s = (Inr (), s)" by (simp add: real_initialize_def)
  then show "calls (snd (real_initialize h s)) = calls s" by simp
next
  assume "fst (login_info h) = None"
  then show "real_initialize h s = (Inr (), s)"
    by (simp add: real_initialize_def login_anonymous)
  then show "calls (snd (real_initialize h s)) = calls s" by simp
next
  assume a: "map_of (cookies s) ''rt_access_token'' = None \<and> login_info h = (Some u, p) \<and>
    http h (token_request u p) = Inr j \<and>
    map_of (received_cookies h (token_request u p)) ''rt_access_token'' \<noteq> None"
  define s1 where "s1 = snd (download_json h (token_request u p) s)"
  have r: "real_initialize h s = (Inr (), s1)"
    using a by (simp add: real_initialize_def login_def download_json_def s1_def)
  have c: "map_of (cookies s1) ''rt_access_token'' \<noteq> None"
    using a by (auto simp: s1_def download_json_def)
  show "fst (real_initialize h s) = Inr ()" using r by simp
  show "calls (snd (real_initialize h s)) = calls s @ [token_request u p]"
    using r by (simp add: s1_def download_json_def)
  show "real_initialize h (snd (real_initialize h s)) = (Inr (), snd (real_initialize h s))"
    using r c by (simp add: real_initialize_def)
next
  assume a: "map_of (cookies s) ''rt_access_token'' = None \<and> login_info h = (Some u, p) \<and>
    http h (token_request u p) = Inr j \<and>
    map_of (received_cookies h (token_request u p)) ''rt_access_token'' = None"
  define s1 where "s1 = snd (download_json h (token_request u p) s)"
  define s2 where "s2 = snd (download_json h (token_request u p) s1)"
  have r: "real_initialize h s = (Inr (), s1)"
    using a by (simp add: real_initialize_def login_def download_json_def s1_def)
  have c: "map_of (cookies s1) ''rt_access_token'' = None"
    using a by (simp add: s1_def download_json_def map_add_def)
  have r2: "real_initialize h s1 = (Inr (), s2)"
    using a c by (simp add: real_initialize_def login_def download_json_def s2_def)
  show "fst (real_initialize h s) = Inr ()" using r by simp
  show "fst (real_initialize h (snd (real_initialize h s))) = Inr ()" using r r2 by simp
  show "calls (snd (real_initialize h (snd (real_initialize h s)))) =
        calls s @ [token_request u p, token_request u p]"
    using r r2 by (simp add: s1_def s2_def download_json_def)
qed

theorem ensure_session_noop_witness:
  "real_initialize null_host state0 = (Inr (), state0) \<and>
   real_initialize member_host (state0\<lparr>cookies := [(''rt_access_token'', ''abc'')]\<rparr>)
     = (Inr (), state0\<lparr>cookies := [(''rt_access_token'', ''abc'')]\<rparr>) \<and>
   calls (snd (real_initialize member_host state0)) = [token_request ''user'' (Some ''secret'')] \<and>
   calls (snd (real_initialize member_host (snd (real_initialize member_host state0))))
     = [token_request ''user'' (Some ''secret'')] \<and>
   calls (snd (real_initialize forgetful_host (snd (real_initialize forgetful_host state0))))
     = [token_request ''user'' (Some ''secret''), token_request ''user'' (Some ''secret'')]"
  using ensure_session_noop [of state0 null_host]
    ensure_session_noop [of "state0\<lparr>cookies := [(''rt_access_token'', ''abc'')]\<rparr>" member_host]
    ensure_session_noop [of state0 member_host "''user''" "Some ''secret''" "JObj [(''access_token'', JStr ''abc'')]"]
    ensure_session_noop [of state0 forgetful_host "''user''" "Some ''secret''" "JObj [(''access_token'', JStr ''abc'')]"]
  by (simp add: state0_def null_host_def member_host_def forgetful_host_def)

text \<open>
  C6 as stated fails for a login that succeeds without leaving the session cookie in
  the jar: the second call finds no cookie and sends the exchange a second time.
\<close>

theorem ensure_session_noop_counterexample:
  "http forgetful_host (token_request ''user'' (Some ''secret'')) =
     Inr (JObj [(''access_token'', JStr ''abc'')]) \<and>
   real_initialize forgetful_host state0 =
     (Inr (), state0\<lparr>calls := [token_request ''user'' (Some ''secret'')]\<rparr>) \<and>
   real_initialize forgetful_host (state0\<lparr>calls := [token_request ''user'' (Some ''secret'')]\<rparr>) =
     (Inr (), state0\<lparr>calls := [token_request ''user'' (Some ''secret''),
                                 token_request ''user'' (Some ''secret'')]\<rparr>)"
  by (simp add: forgetful_host_def member_host_def null_host_def state0_def
      real_initialize_def login_def download_json_def)

lemma py_get_dict: "py_get (JObj kvs) k = Inr (dict_get kvs k)"
  by (simp add: py_get_def dict_get_def)

lemma login_error_field_dict:
  "login_error_field (JObj kvs) =
     Inr (py_or (dict_get kvs ''extra_info'')
            (py_or (dict_get kvs ''error_description'') (dict_get kvs ''error'')))"
  by (simp add: login_error_field_def py_get_dict py_or_def)

lemma login_failed:
  assumes "login_info h = (Some u, p)" and "http h (token_request u p) = Inl (m, c)"
  shows "login h s =
     (case login_warning h (ExtractorError m c) (snd (download_json h (token_request u p) s)) of
        (Inl e', s2) \<Rightarrow> (Inl e', s2)
      | (Inr msg, s2) \<Rightarrow> (Inr (), report_warning msg s2))"
  using assms by (simp add: login_def download_json_def)

lemma login_warning_other:
  "(\<forall>body. c \<noteq> Some (HTTPError 401 body)) \<Longrightarrow>
   login_warning h (ExtractorError m c) s = (Inr ''Unable to login'', s)"
proof (cases c)
  case None
  then show ?thesis by (simp add: login_warning_def)
next
  case (Some a)
  assume n: "\<forall>body. c \<noteq> Some (HTTPError 401 body)"
  show ?thesis
  proof (cases a)
    case (HTTPError code body)
    with Some n have "code \<noteq> 401" by auto
    with Some HTTPError show ?thesis by (simp add: login_warning_def)
  qed (simp_all add: Some login_warning_def)
qed

lemma login_warning_unparsable:
  "utf8_decode h body = Some decoded \<Longrightarrow> json_loads h decoded = Inl ve \<Longrightarrow>
   login_warning h (ExtractorError m (Some (HTTPError 401 body))) s =
     (Inr ''Unable to login'', report_warning (''None: Failed to parse JSON '' @ ve) s)"
  by (simp add: login_warning_def read_decode_def parse_json_def)

lemma login_warning_falsy:
  "utf8_decode h body = Some decoded \<Longrightarrow> json_loads h decoded = Inr resp \<Longrightarrow> \<not> truthy resp \<Longrightarrow>
   login_warning h (ExtractorError m (Some (HTTPError 401 body))) s = (Inr ''Unable to login'', s)"
  by (simp add: login_warning_def read_decode_def parse_json_def)

lemma login_warning_dict:
  "utf8_decode h body = Some decoded \<Longrightarrow> json_loads h decoded = Inr (JObj kvs) \<Longrightarrow> kvs \<noteq> [] \<Longrightarrow>
   login_warning h (ExtractorError m (Some (HTTPError 401 body))) s =
     (let err = py_or (dict_get kvs ''extra_info'')
                  (py_or (dict_get kvs ''error_description'') (dict_get kvs ''error''))
      in if truthy err
         then (case str_add ''Unable to login: '' err of
                 Inl e' \<Rightarrow> (Inl e', s) | Inr t \<Rightarrow> (Inr t, s))
         else (Inr ''Unable to login'', s))"
  by (simp add: login_warning_def read_decode_def parse_json_def login_error_field_dict Let_def)

lemma login_undecodable_body:
  assumes "login_info h = (Some u, p)"
      and "http h (token_request u p) = Inl (m, Some (HTTPError 401 body))"
      and "utf8_decode h body = None"
  shows "login h s = (Inl UnicodeDecodeError, snd (download_json h (token_request u p) s))"
  using assms
  by (simp add: login_failed login_warning_def read_decode_def del: http_error_of.simps)
     (simp add: login_warning_def read_decode_def)

text \<open>
  C5, as amended. Let the credential exchange fail with an \<^verbatim>\<open>ExtractorError\<close> of
  cause \<open>c\<close>. In each of the following cases \<^verbatim>\<open>_login\<close> returns without raising,
  and its last warning is
  \<^item> \<^verbatim>\<open>Unable to login\<close> alone when \<open>c\<close> is not an HTTP 401 (the body is not
    looked at), when the body of the 401 is a text that cannot be parsed (the parser's
    own warning precedes it) or that parses to a falsy value, and when none of the
    fields is truthy;
  \<^item> \<^verbatim>\<open>Unable to login: \<close> followed by the selected text when the body of the 401
    is a text that parses to an object, where the selected value is the first truthy
    one of \<^verbatim>\<open>extra_info\<close>, \<^verbatim>\<open>error_description\<close>, \<^verbatim>\<open>error\<close>, in that order, and
    is a text.
  Nothing is said here of a 401 whose body is not a text, parses to a truthy value that
  is not an object, or selects a value that is not a text.
\<close>

theorem login_failure_warning:
  assumes "login_info h = (Some u, p)"
    and "http h (token_request u p) = Inl (m, c)"
    and "s1 = snd (download_json h (token_request u p) s)"
    and "err = py_or (dict_get kvs ''extra_info'')
                 (py_or (dict_get kvs ''error_description'') (dict_get kvs ''error''))"
  shows "((\<forall>b. c \<noteq> Some (HTTPError 401 b)) \<longrightarrow>
            login h s = (Inr (), report_warning ''Unable to login'' s1))
       \<and> (c = Some (HTTPError 401 body) \<and> utf8_decode h body = Some decoded
            \<and> json_loads h decoded = Inl ve \<longrightarrow>
            login h s = (Inr (), report_warning ''Unable to login''
                           (report_warning (''None: Failed to parse JSON '' @ ve) s1)))
       \<and> (c = Some (HTTPError 401 body) \<and> utf8_decode h body = Some decoded
            \<and> json_loads h decoded = Inr resp \<and> \<not> truthy resp \<longrightarrow>
            login h s = (Inr (), report_warning ''Unable to login'' s1))
       \<and> (c = Some (HTTPError 401 body) \<and> utf8_decode h body = Some decoded
            \<and> json_loads h decoded = Inr (JObj kvs) \<and> kvs \<noteq> [] \<and> \<not> truthy err \<longrightarrow>
            login h s = (Inr (), report_warning ''Unable to login'' s1))
       \<and> (c = Some (HTTPError 401 body) \<and> utf8_decode h body = Some decoded
            \<and> json_loads h decoded = Inr (JObj kvs) \<and> err = JStr t \<and> t \<noteq> [] \<longrightarrow>
            login h s = (Inr (), report_warning (''Unable to login: '' @ t) s1))"
proof (intro conjI impI)
  note lf = login_failed [OF assms(1,2), of s, folded assms(3)]
  show "login h s = (Inr (), report_warning ''Unable to login'' s1)"
    if "\<forall>b. c \<noteq> Some (HTTPError 401 b)"
    using that lf by (simp add: login_warning_other)
  show "login h s = (Inr (), report_warning ''Unable to login''
                           (report_warning (''None: Failed to parse JSON '' @ ve) s1))"
    if "c = Some (HTTPError 401 body) \<and> utf8_decode h body = Some decoded
          \<and> json_loads h decoded = Inl ve"
    using that lf by (simp add: login_warning_unparsable)
  show "login h s = (Inr (), report_warning ''Unable to login'' s1)"
    if "c = Some (HTTPError 401 body) \<and> utf8_decode h body = Some decoded
          \<and> json_loads h decoded = Inr resp \<and> \<not> truthy resp"
    using that lf by (simp add: login_warning_falsy)
  show "login h s = (Inr (), report_warning ''Unable to login'' s1)"
    if "c = Some (HTTPError 401 body) \<and> utf8_decode h body = Some decoded
          \<and> json_loads h decoded = Inr (JObj kvs) \<and> kvs \<noteq> [] \<and> \<not> truthy err"
    using that lf assms(4) by (simp add: login_warning_dict)
  show "login h s = (Inr (), report_warning (''Unable to login: '' @ t) s1)"
    if "c = Some (HTTPError 401 body) \<and> utf8_decode h body = Some decoded
          \<and> json_loads h decoded = Inr (JObj kvs) \<and> err = JStr t \<and> t \<noteq> []"
  proof -
    from that assms(4) have "kvs \<noteq> []" by (auto simp: dict_get_def py_or_def)
    with that lf assms(4) show ?thesis by (simp add: login_warning_dict)
  qed
qed

theorem login_failure_warning_witness:
  "login rejected_401 state0 =
     (Inr (), \<lparr>cookies = [], calls = [token_request ''user'' (Some ''wrong'')],
               warnings = [''Unable to login: Invalid credentials'']\<rparr>) \<and>
   login garbled_401 state0 =
     (Inr (), \<lparr>cookies = [], calls = [token_request ''user'' (Some ''wrong'')],
               warnings = [''None: Failed to parse JSON Expecting value'',
                           ''Unable to login'']\<rparr>)"
  using login_failure_warning [where h = rejected_401 and s = state0 and u = "''user''"
      and p = "Some ''wrong''" and m = "''HTTP Error''" and kvs = grant_error
      and c = "Some (HTTPError 401 ''{error_description:Invalid credentials,error:invalid_grant}'')"
      and body = "''{error_description:Invalid credentials,error:invalid_grant}''"
      and decoded = "''{error_description:Invalid credentials,error:invalid_grant}''"
      and t = "''Invalid credentials''", OF _ _ refl refl]
    login_failure_warning [where h = garbled_401 and s = state0 and u = "''user''"
      and p = "Some ''wrong''" and m = "''HTTP Error''" and kvs = "[]"
      and c = "Some (HTTPError 401 ''<html>'')"
      and body = "''<html>''" and decoded = "''<html>''" and ve = "''Expecting value''",
      OF _ _ refl refl]
  by (simp add: rejected_401_def garbled_401_def failing_login_host_def null_host_def
      state0_def grant_error_def download_json_def report_warning_def dict_get_def py_or_def)

text \<open>
  C5 as stated fails for an exchange rejected with HTTP 400: the body names an
  \<^verbatim>\<open>error\<close>, and the warning is the generic one all the same.
\<close>

theorem login_failure_warning_counterexample:
  "http rejected_400 (token_request ''user'' (Some ''wrong'')) =
     Inl (''HTTP Error'', Some (HTTPError 400 ''{error:invalid_grant}'')) \<and>
   utf8_decode rejected_400 ''{error:invalid_grant}'' = Some ''{error:invalid_grant}'' \<and>
   json_loads rejected_400 ''{error:invalid_grant}'' =
     Inr (JObj [(''error'', JStr ''invalid_grant'')]) \<and>
   login rejected_400 state0 =
     (Inr (), \<lparr>cookies = [], calls = [token_request ''user'' (Some ''wrong'')],
               warnings = [''Unable to login'']\<rparr>)"
  by (simp add: rejected_400_def failing_login_host_def null_host_def state0_def login_def
      download_json_def login_warning_def report_warning_def)

section \<open>Properties of the episode resolver\<close>

lemma manifest_url_failed:
  assumes "http h (videos_request u) = Inl (m, c)"
  shows "manifest_url h disp u s =
     (let s1 = snd (download_json h (videos_request u) s); e = ExtractorError m c in
      case http_error_of e of
        Some (code, body) \<Rightarrow>
          if code = 403 then
            (case read_decode h body of
               Inl e' \<Rightarrow> (Inl e', s1)
             | Inr json_string \<Rightarrow>
            (case parse_json h json_string (Some disp) True s1 of
               (Inl e', s2) \<Rightarrow> (Inl e', s2)
             | (Inr resp, s2) \<Rightarrow>
                 (case py_get resp ''access'' of
                    Inl e' \<Rightarrow> (Inl e', s2)
                  | Inr a \<Rightarrow>
                      if a = JBool False then
                        (Inl (LoginRequired
                                (disp @ '' is only available for FIRST members'')), s2)
                      else (Inl e, s2))))
          else (Inl e, s1)
      | None \<Rightarrow> (Inl e, s1))"
  using assms by (simp add: manifest_url_def download_json_def Let_def)

lemma real_extract_manifest_error:
  "fst (manifest_url h disp (EPISODE_BASE_URL @ disp) s) = Inl e \<Longrightarrow>
   fst (real_extract h disp s) = Inl e"
  by (cases "manifest_url h disp (EPISODE_BASE_URL @ disp) s")
     (simp add: real_extract_def)

lemma http_error_of_other:
  "(\<forall>b. c \<noteq> Some (HTTPError 403 b)) \<Longrightarrow>
   (case http_error_of (ExtractorError m c) of
      Some (code, body) \<Rightarrow> if code = 403 then x code body else y
    | None \<Rightarrow> y) = y"
  by (cases "(ExtractorError m c)" rule: http_error_of.cases) auto

text \<open>
  C1, as amended. Let the fetch of the manifest for the display id \<open>disp\<close> fail with
  an \<^verbatim>\<open>ExtractorError\<close> of message \<open>m\<close> and cause \<open>c\<close>.
  \<^item> If \<open>c\<close> is an HTTP 403 whose body is a text that parses to an object, \<^verbatim>\<open>_real_extract\<close> fails
    with the members-only error carrying
    \<^verbatim>\<open>{disp} is only available for FIRST members\<close> exactly when the object's
    \<^verbatim>\<open>access\<close> is \<^verbatim>\<open>False\<close>, and with the original error, unchanged, when the key is
    missing or has any other value.
  \<^item> If \<open>c\<close> is anything but an HTTP 403, it fails with the original error.
\<close>

theorem members_only_error:
  assumes "http h (videos_request (EPISODE_BASE_URL @ disp)) = Inl (m, c)"
  shows "(c = Some (HTTPError 403 body) \<and> utf8_decode h body = Some decoded
            \<and> json_loads h decoded = Inr (JObj kvs) \<longrightarrow>
            fst (real_extract h disp s) =
              Inl (if dict_get kvs ''access'' = JBool False
                   then LoginRequired (disp @ '' is only available for FIRST members'')
                   else ExtractorError m c))
       \<and> ((\<forall>b. c \<noteq> Some (HTTPError 403 b)) \<longrightarrow>
            fst (real_extract h disp s) = Inl (ExtractorError m c))"
proof (intro conjI impI)
  note mf = manifest_url_failed [OF assms, of disp s]
  show "fst (real_extract h disp s) =
              Inl (if dict_get kvs ''access'' = JBool False
                   then LoginRequired (disp @ '' is only available for FIRST members'')
                   else ExtractorError m c)"
    if "c = Some (HTTPError 403 body) \<and> utf8_decode h body = Some decoded
          \<and> json_loads h decoded = Inr (JObj kvs)"
    by (rule real_extract_manifest_error)
       (use that in \<open>simp add: mf read_decode_def parse_json_def py_get_dict\<close>)
  show "fst (real_extract h disp s) = Inl (ExtractorError m c)"
    if "\<forall>b. c \<noteq> Some (HTTPError 403 b)"
    by (rule real_extract_manifest_error)
       (use that in \<open>simp add: mf Let_def http_error_of_other\<close>)
qed

theorem members_only_error_witness:
  "fst (real_extract members_only_host ''rt-docs-part-one'' state0) =
     Inl (LoginRequired ''rt-docs-part-one is only available for FIRST members'') \<and>
   fst (real_extract null_host ''rt-docs-part-one'' state0) =
     Inl (ExtractorError ''HTTP Error 404: Not Found'' (Some (HTTPError 404 '''')))"
  using members_only_error [where h = members_only_host and disp = "''rt-docs-part-one''"
      and m = "''HTTP Error 403: Forbidden''" and c = "Some (HTTPError 403 ''{access:false}'')"
      and body = "''{access:false}''" and decoded = "''{access:false}''" and kvs = "[(''access'', JBool False)]" and s = state0]
    members_only_error [where h = null_host and disp = "''rt-docs-part-one''"
      and m = "''HTTP Error 404: Not Found''" and c = "Some (HTTPError 404 '''')" and s = state0]
  by (simp add: members_only_host_def forbidden_host_def null_host_def dict_get_def)

text \<open>
  C1 as stated fails on an HTTP 403 whose body is not JSON: the error that leaves
  \<^verbatim>\<open>_real_extract\<close> is the parse failure, not the original fetch error. And the
  message of the members-only error is not the one the claim quotes.
\<close>

theorem members_only_error_counterexample:
  "http garbled_403_host (videos_request (EPISODE_BASE_URL @ ''rt-docs-part-one'')) =
     Inl (''HTTP Error 403: Forbidden'', Some (HTTPError 403 ''<html>'')) \<and>
   utf8_decode garbled_403_host ''<html>'' = Some ''<html>'' \<and>
   json_loads garbled_403_host ''<html>'' = Inl ''Expecting value'' \<and>
   fst (real_extract garbled_403_host ''rt-docs-part-one'' state0) =
     Inl (ExtractorError ''rt-docs-part-one: Failed to parse JSON '' (Some ValueError)) \<and>
   fst (real_extract garbled_403_host ''rt-docs-part-one'' state0) \<noteq>
     Inl (ExtractorError ''HTTP Error 403: Forbidden'' (Some (HTTPError 403 ''<html>''))) \<and>
   fst (real_extract members_only_host ''rt-docs-part-one'' state0) \<noteq>
     Inl (LoginRequired ''rt-docs-part-one is only available for members'')"
  by (simp add: garbled_403_host_def members_only_host_def forbidden_host_def null_host_def
      real_extract_def manifest_url_def download_json_def read_decode_def parse_json_def
      py_get_dict Let_def)

lemma real_extract_success:
  assumes "fst (real_extract h disp s) = Inr r"
  shows "\<exists>fmts j. http h (episode_request (EPISODE_BASE_URL @ disp)) = Inr j \<and>
           episode_info h disp fmts j = Inr r"
  using assms
  by (auto simp: real_extract_def download_json_def Let_def
           split: prod.splits sum.splits)

lemma real_extract_metadata:
  assumes "manifest_url h disp (EPISODE_BASE_URL @ disp) s = (Inr u, s1)"
      and "m3u8_formats h u = Inr fs" and "sort_formats h fs = Inr fmts"
      and "http h (episode_request (EPISODE_BASE_URL @ disp)) = Inr j"
  shows "fst (real_extract h disp s) = episode_info h disp fmts j"
  using assms by (simp add: real_extract_def download_json_def Let_def)

lemma episode_info_dict:
  assumes "first_data j = Inr (JObj ep)" and "map_of ep ''attributes'' = Some (JObj attrs)"
  shows "episode_info h disp fmts j =
     (case title_of attrs of
        Inl e \<Rightarrow> Inl e
      | Inr t \<Rightarrow>
     (case subscript (JObj ep) ''id'' of
        Inl e \<Rightarrow> Inl e
      | Inr i \<Rightarrow>
     (case episode_images (JObj ep) of
        Inl e \<Rightarrow> Inl e
      | Inr images \<Rightarrow>
     (case image_loop images of
        Inl e \<Rightarrow> Inl e
      | Inr ths \<Rightarrow>
          Inr \<lparr>video_id = compat_str h i,
               display_id = disp,
               title = t,
               description =
                 py_or (dict_get attrs ''description'') (dict_get attrs ''caption''),
               thumbnails = ths,
               series = dict_get attrs ''show_title'',
               season_number = int_or_none h (dict_get attrs ''season_number''),
               season_id = dict_get attrs ''season_id'',
               episode = t,
               episode_number = int_or_none h (dict_get attrs ''number''),
               episode_id = str_or_none h (dict_get ep ''uuid''),
               formats = fmts,
               channel_id = dict_get attrs ''channel_id'',
               duration = int_or_none h (dict_get attrs ''length'')\<rparr>))))"
  using assms by (simp add: episode_info_def py_get_dict split: sum.splits)

lemma episode_info_success:
  assumes "episode_info h disp fmts j = Inr r"
  shows "\<exists>ep attrs imgs. first_data j = Inr (JObj ep) \<and>
           map_of ep ''attributes'' = Some (JObj attrs) \<and>
           episode_images (JObj ep) = Inr imgs \<and> image_loop imgs = Inr (thumbnails r)"
proof -
  from assms obtain e where fd: "first_data j = Inr e"
    by (auto simp: episode_info_def split: sum.splits)
  with assms obtain a where a: "subscript e ''attributes'' = Inr a"
    by (auto simp: episode_info_def split: sum.splits)
  then obtain ep where ep: "e = JObj ep" by (cases e) auto
  from assms fd a obtain attrs where at: "a = JObj attrs"
    by (cases a) (auto simp: episode_info_def)
  from a ep at have m: "map_of ep ''attributes'' = Some (JObj attrs)"
    by (auto split: option.splits)
  from assms episode_info_dict [OF fd [unfolded ep] m, of h disp fmts]
  obtain imgs where "episode_images (JObj ep) = Inr imgs" "image_loop imgs = Inr (thumbnails r)"
    by (auto split: sum.splits)
  with fd ep m show ?thesis by blast
qed

lemma tag_loop_dict:
  "tag_loop (JObj a) ks = Inr (concat (map (spec_tag_thumbnail a) ks))"
  by (induction ks) (auto simp: py_get_dict dict_get_def spec_tag_thumbnail_def split: option.splits)

lemma tag_loop_tags:
  "tag_loop (JObj a) thumbnail_tags =
     Inr (concat (map (spec_tag_thumbnail a) [''thumb'', ''small'', ''medium'', ''large'']))"
  by (simp only: tag_loop_dict thumbnail_tags_def)

lemma image_thumbnails_dict:
  "image_thumbnails (JObj kvs) =
     (if dict_get kvs ''type'' = JStr ''episode_image''
      then tag_loop (py_or (dict_get kvs ''attributes'') (JObj [])) thumbnail_tags
      else Inr [])"
  by (simp add: image_thumbnails_def py_get_dict)

lemma spec_thumbnails_dict:
  "spec_thumbnails (JObj kvs) =
     (if dict_get kvs ''type'' = JStr ''episode_image''
      then (case dict_get kvs ''attributes'' of
              JObj a \<Rightarrow>
                concat (map (spec_tag_thumbnail a) [''thumb'', ''small'', ''medium'', ''large''])
            | _ \<Rightarrow> [])
      else [])"
  by (auto simp: spec_thumbnails_def dict_get_def split: option.splits json.splits)

lemma image_thumbnails_spec:
  assumes "image_thumbnails img = Inr ts"
  shows "ts = spec_thumbnails img"
proof (cases img)
  case (JObj kvs)
  note r = assms [unfolded JObj image_thumbnails_dict]
  show ?thesis
  proof (cases "dict_get kvs ''type'' = JStr ''episode_image''")
    case False
    with r show ?thesis by (simp add: JObj spec_thumbnails_dict)
  next
    case True
    show ?thesis
    proof (cases "dict_get kvs ''attributes''")
      case (JObj a)
      with r True have "ts = concat (map (spec_tag_thumbnail a) [''thumb'', ''small'', ''medium'', ''large''])"
        by (cases "a = []") (simp_all add: py_or_def tag_loop_tags)
      with True JObj show ?thesis by (simp add: \<open>img = JObj kvs\<close> spec_thumbnails_dict)
    qed (use r True in \<open>simp_all add: py_or_def tag_loop_tags spec_tag_thumbnail_def
           \<open>img = JObj kvs\<close> spec_thumbnails_dict thumbnail_tags_def py_get_def
           split: if_splits\<close>)
  qed
qed (use assms in \<open>simp_all add: image_thumbnails_def py_get_def\<close>)

lemma image_loop_spec:
  "image_loop imgs = Inr ths \<Longrightarrow> ths = concat (map spec_thumbnails imgs)"
proof (induction imgs arbitrary: ths)
  case Nil
  then show ?case by simp
next
  case (Cons img imgs)
  then show ?case
    by (auto split: sum.splits dest: image_thumbnails_spec)
qed

text \<open>
  C7. Whenever \<^verbatim>\<open>_real_extract\<close> returns a record, its thumbnails are those the
  specification describes, image by image in the order of \<^verbatim>\<open>included.images\<close>: an
  image whose \<^verbatim>\<open>type\<close> is \<^verbatim>\<open>episode_image\<close> gives, for the tags thumb, small,
  medium, large in that order, one thumbnail (tag, value) for each tag present with a
  non-empty value; an image of any other type gives nothing.
\<close>

theorem thumbnails_of_episode_images:
  assumes "fst (real_extract h disp s) = Inr r"
      and "http h (episode_request (EPISODE_BASE_URL @ disp)) = Inr j"
      and "first_data j = Inr ep" and "episode_images ep = Inr imgs"
  shows "thumbnails r = concat (map spec_thumbnails imgs)"
proof -
  from real_extract_success [OF assms(1)] assms(2)
  obtain fmts where "episode_info h disp fmts j = Inr r" by auto
  from episode_info_success [OF this] assms(3,4)
  have "image_loop imgs = Inr (thumbnails r)" by auto
  then show ?thesis by (rule image_loop_spec)
qed

lemmas run_episode =
  real_extract_def manifest_url_def download_json_def manifest_of_def first_data_def
  episode_info_def title_of_def episode_images_def image_thumbnails_def py_get_def
  py_or_def dict_get_def thumbnail_tags_def str_or_none_def public_host_def null_host_def
  videos_request_def episode_request_def episode_response_def manifest_response_def
  state0_def Let_def

theorem thumbnails_of_episode_images_witness:
  "map_sum id thumbnails
     (fst (real_extract (public_host ''the-game-announcement''
                           (episode_response announcement two_images))
             ''the-game-announcement'' state0))
   = Inr [\<lparr>thumbnail_id = ''thumb'', thumbnail_url = JStr ''A''\<rparr>]"
proof -
  let ?h = "public_host ''the-game-announcement'' (episode_response announcement two_images)"
  obtain r where r: "fst (real_extract ?h ''the-game-announcement'' state0) = Inr r"
    by (simp add: run_episode announcement_def two_images_def)
  have "thumbnails r = concat (map spec_thumbnails two_images)"
    by (rule thumbnails_of_episode_images [OF r, where j = "episode_response announcement two_images"])
       (simp add: run_episode)+
  then show ?thesis
    unfolding r by (simp add: two_images_def spec_thumbnails_def spec_tag_thumbnail_def)
qed

lemma title_of_value:
  "title_of attrs = Inr t \<Longrightarrow>
   t = (if truthy (dict_get attrs ''title'') then dict_get attrs ''title''
        else dict_get attrs ''display_title'')"
  by (auto simp: title_of_def dict_get_def split: if_splits option.splits)

lemma episode_info_title:
  assumes "episode_info h disp fmts j = Inr r"
      and "first_data j = Inr ep" and "subscript ep ''attributes'' = Inr (JObj attrs)"
  shows "title_of attrs = Inr (title r)"
    and "description r = py_or (dict_get attrs ''description'') (dict_get attrs ''caption'')"
    and "season_number r = int_or_none h (dict_get attrs ''season_number'')"
    and "episode_number r = int_or_none h (dict_get attrs ''number'')"
    and "duration r = int_or_none h (dict_get attrs ''length'')"
  using assms by (auto simp: episode_info_def split: sum.splits)

text \<open>
  C8, as amended. Whenever \<^verbatim>\<open>_real_extract\<close> returns a record, its title is
  \<^verbatim>\<open>attributes.title\<close> when that is present and non-empty (true for Python), and
  \<^verbatim>\<open>attributes.display_title\<close> otherwise; its description is
  \<^verbatim>\<open>attributes.description\<close> when that is present and non-empty, and
  \<^verbatim>\<open>attributes.caption\<close> (\<^verbatim>\<open>None\<close> when there is none) otherwise.
\<close>

theorem title_and_description:
  assumes "fst (real_extract h disp s) = Inr r"
      and "http h (episode_request (EPISODE_BASE_URL @ disp)) = Inr j"
      and "first_data j = Inr ep" and "subscript ep ''attributes'' = Inr (JObj attrs)"
  shows "title r = (if truthy (dict_get attrs ''title'') then dict_get attrs ''title''
                    else dict_get attrs ''display_title'')
       \<and> description r = (if truthy (dict_get attrs ''description'')
                          then dict_get attrs ''description''
                          else dict_get attrs ''caption'')"
proof -
  from real_extract_success [OF assms(1)] assms(2)
  obtain fmts where i: "episode_info h disp fmts j = Inr r" by auto
  from episode_info_title(1,2) [OF i assms(3,4)] title_of_value
  show ?thesis by (simp add: py_or_def)
qed

theorem title_and_description_witness:
  "map_sum id (\<lambda>r. (title r, description r))
     (fst (real_extract (public_host ''x'' (episode_response untitled [])) ''x'' state0))
   = Inr (JStr ''X'', JStr ''A short caption'')"
proof -
  let ?h = "public_host ''x'' (episode_response untitled [])"
  obtain r where r: "fst (real_extract ?h ''x'' state0) = Inr r"
    by (simp add: run_episode untitled_def)
  have "title r = (if truthy (dict_get untitled ''title'') then dict_get untitled ''title''
                    else dict_get untitled ''display_title'')
       \<and> description r = (if truthy (dict_get untitled ''description'')
                          then dict_get untitled ''description''
                          else dict_get untitled ''caption'')"
    by (rule title_and_description [OF r, where j = "episode_response untitled []"])
       (simp add: run_episode)+
  then show ?thesis unfolding r by (simp add: untitled_def dict_get_def)
qed

text \<open>
  C8 as stated fails when \<^verbatim>\<open>attributes.title\<close> is present and empty: the title of
  the record is the \<^verbatim>\<open>display_title\<close>, not the title that is present.
\<close>

theorem title_and_description_counterexample:
  "map_of empty_title ''title'' = Some (JStr []) \<and>
   map_sum id title
     (fst (real_extract (public_host ''x'' (episode_response empty_title [])) ''x'' state0))
   = Inr (JStr ''X'')"
  by (simp add: run_episode empty_title_def)

text \<open>
  C10. Let the fetches succeed and the metadata have a dictionary of attributes whose
  \<^verbatim>\<open>title\<close> is absent, \<^verbatim>\<open>None\<close>, the empty text or any other value that Python
  takes for false. If \<^verbatim>\<open>display_title\<close> is absent too, \<^verbatim>\<open>_real_extract\<close> raises
  \<^verbatim>\<open>KeyError('display_title')\<close>; if it is present, the title of a returned record is
  the \<^verbatim>\<open>display_title\<close>.
\<close>

theorem title_fallback_or_key_error:
  assumes "manifest_url h disp (EPISODE_BASE_URL @ disp) s = (Inr u, s1)"
      and "m3u8_formats h u = Inr fs" and "sort_formats h fs = Inr fmts"
      and "http h (episode_request (EPISODE_BASE_URL @ disp)) = Inr j"
      and "first_data j = Inr ep" and "subscript ep ''attributes'' = Inr (JObj attrs)"
      and "\<not> truthy (dict_get attrs ''title'')"
  shows "(map_of attrs ''display_title'' = None \<longrightarrow>
            fst (real_extract h disp s) = Inl (KeyError (JStr ''display_title'')))
       \<and> (\<forall>v r. map_of attrs ''display_title'' = Some v \<and>
                 fst (real_extract h disp s) = Inr r \<longrightarrow> title r = v)"
proof (intro conjI impI allI)
  note m = real_extract_metadata [OF assms(1-4)]
  show "fst (real_extract h disp s) = Inl (KeyError (JStr ''display_title''))"
    if "map_of attrs ''display_title'' = None"
    using that assms(5-7) by (simp add: m episode_info_def title_of_def)
  show "title r = v"
    if "map_of attrs ''display_title'' = Some v \<and> fst (real_extract h disp s) = Inr r" for v r
  proof -
    from that m have "episode_info h disp fmts j = Inr r" by simp
    from episode_info_title(1) [OF this assms(5,6)] that assms(7)
    show ?thesis by (simp add: title_of_def)
  qed
qed

theorem title_fallback_or_key_error_witness:
  "fst (real_extract (public_host ''x'' (episode_response nameless [])) ''x'' state0)
     = Inl (KeyError (JStr ''display_title'')) \<and>
   map_sum id title
     (fst (real_extract (public_host ''x'' (episode_response empty_title [])) ''x'' state0))
     = Inr (JStr ''X'')"
proof -
  let ?h = "\<lambda>a. public_host ''x'' (episode_response a [])"
  have a: "manifest_url (?h a) ''x'' (EPISODE_BASE_URL @ ''x'') state0 =
             (Inr (JStr ''https://rtv3-video.roosterteeth.com/9156/index.m3u8''),
              snd (download_json (?h a) (videos_request (EPISODE_BASE_URL @ ''x'')) state0))" for a
    by (simp add: run_episode)
  have b: "m3u8_formats (?h a) u = Inr [JObj [(''format_id'', JStr ''hls-1'')]]"
          "sort_formats (?h a) fs = Inr fs"
          "http (?h a) (episode_request (EPISODE_BASE_URL @ ''x'')) = Inr (episode_response a [])"
          "first_data (episode_response a []) =
             Inr (JObj [(''id'', JInt 9156), (''uuid'', JStr ''b8d2ff1c''),
                        (''attributes'', JObj a),
                        (''included'', JObj [(''images'', JList [])])])" for a u fs
    by (simp_all add: run_episode)
  have c: "subscript (JObj [(''id'', JInt 9156), (''uuid'', JStr ''b8d2ff1c''),
                        (''attributes'', JObj a),
                        (''included'', JObj [(''images'', JList [])])]) ''attributes''
             = Inr (JObj a)" for a
    by simp
  have n: "\<not> truthy (dict_get nameless ''title'')" "\<not> truthy (dict_get empty_title ''title'')"
    by (simp_all add: nameless_def empty_title_def dict_get_def)
  obtain r where r: "fst (real_extract (?h empty_title) ''x'' state0) = Inr r"
    by (simp add: run_episode empty_title_def)
  from title_fallback_or_key_error [OF a b(1) b(2) b(3) b(4) c n(1)]
    title_fallback_or_key_error [OF a b(1) b(2) b(3) b(4) c n(2)] r
  show ?thesis unfolding r by (simp add: nameless_def empty_title_def)
qed

lemma int_or_none_non_numeric: "\<not> numeric h v \<Longrightarrow> int_or_none h v = None"
  by (cases v) auto

lemma real_extract_cases:
  "fst (real_extract h disp s) =
     (case manifest_url h disp (EPISODE_BASE_URL @ disp) s of
        (Inl e, s1) \<Rightarrow> Inl e
      | (Inr u, s1) \<Rightarrow>
          (case m3u8_formats h u of
             Inl e \<Rightarrow> Inl e
           | Inr fs \<Rightarrow>
               (case sort_formats h fs of
                  Inl e \<Rightarrow> Inl e
                | Inr fmts \<Rightarrow>
                    (case http h (episode_request (EPISODE_BASE_URL @ disp)) of
                       Inl (m, c) \<Rightarrow> Inl (ExtractorError m c)
                     | Inr j \<Rightarrow> episode_info h disp fmts j))))"
  by (simp add: real_extract_def download_json_def Let_def split: prod.splits sum.splits)

lemma manifest_url_other_response:
  "manifest_url (h\<lparr>http := (http h)(episode_request u := x)\<rparr>) disp u s = manifest_url h disp u s"
proof -
  have d: "download_json (h\<lparr>http := (http h)(episode_request u := x)\<rparr>) (videos_request u) s
             = download_json h (videos_request u) s"
    by (simp add: download_json_def videos_request_def episode_request_def)
  have p: "parse_json (h\<lparr>http := f\<rparr>) b v fatal t = parse_json h b v fatal t" for f b v fatal t
    by (simp add: parse_json_def)
  have r: "read_decode (h\<lparr>http := f\<rparr>) b = read_decode h b" for f b
    by (simp add: read_decode_def)
  show ?thesis by (simp only: manifest_url_def d p r)
qed

lemma episode_info_other_response:
  "episode_info (h\<lparr>http := f\<rparr>) disp fmts j = episode_info h disp fmts j"
proof -
  have "int_or_none (h\<lparr>http := f\<rparr>) v = int_or_none h v" for v by (cases v) auto
  then show ?thesis
    by (simp add: episode_info_def str_or_none_def split: sum.splits json.splits)
qed

lemma episode_info_numbers_replaced:
  assumes "first_data j = Inr (JObj ep)" and "map_of ep ''attributes'' = Some (JObj attrs)"
      and "first_data j' = Inr (JObj ep')" and "map_of ep' ''attributes'' = Some (JObj attrs')"
      and e: "\<forall>k. k \<noteq> ''attributes'' \<longrightarrow> map_of ep' k = map_of ep k"
      and a: "\<forall>k. k \<notin> {''season_number'', ''number'', ''length''} \<longrightarrow>
                map_of attrs' k = map_of attrs k"
  shows "episode_info h disp fmts j' =
           map_sum id
             (\<lambda>r. r\<lparr>season_number := int_or_none h (dict_get attrs' ''season_number''),
                     episode_number := int_or_none h (dict_get attrs' ''number''),
                     duration := int_or_none h (dict_get attrs' ''length'')\<rparr>)
             (episode_info h disp fmts j)"
proof -
  have t: "title_of attrs' = title_of attrs"
    using a by (simp add: title_of_def dict_get_def)
  have i: "subscript (JObj ep') ''id'' = subscript (JObj ep) ''id''"
    using e by simp
  have g: "episode_images (JObj ep') = episode_images (JObj ep)"
    using e by (simp add: episode_images_def)
  have u: "dict_get ep' ''uuid'' = dict_get ep ''uuid''"
    using e by (simp add: dict_get_def)
  have d: "dict_get attrs' ''description'' = dict_get attrs ''description''"
          "dict_get attrs' ''caption'' = dict_get attrs ''caption''"
          "dict_get attrs' ''show_title'' = dict_get attrs ''show_title''"
          "dict_get attrs' ''season_id'' = dict_get attrs ''season_id''"
          "dict_get attrs' ''channel_id'' = dict_get attrs ''channel_id''"
    using a by (simp_all add: dict_get_def)
  show ?thesis
    unfolding episode_info_dict [OF assms(1,2)] episode_info_dict [OF assms(3,4)] t i g u d
    by (simp split: sum.splits)
qed

text \<open>
  C9. Let the metadata response \<open>j\<close> have a dictionary of attributes. In a returned
  record, \<open>season_number\<close>, \<open>episode_number\<close> and \<open>duration\<close> are absent whenever
  their source values \<^verbatim>\<open>season_number\<close>, \<^verbatim>\<open>number\<close> and \<^verbatim>\<open>length\<close> are missing
  or not numeric. And these values never decide whether \<^verbatim>\<open>_real_extract\<close> fails: with
  a response \<open>j'\<close> that differs from \<open>j\<close> in nothing but those three values (present or
  not, numeric or not), the outcome is the same error, or the same record up to the
  three fields.
\<close>

theorem numeric_fields_permissive:
  assumes "http h (episode_request (EPISODE_BASE_URL @ disp)) = Inr j"
      and "first_data j = Inr (JObj ep)" and "map_of ep ''attributes'' = Some (JObj attrs)"
      and "first_data j' = Inr (JObj ep')" and "map_of ep' ''attributes'' = Some (JObj attrs')"
      and "\<forall>k. k \<noteq> ''attributes'' \<longrightarrow> map_of ep' k = map_of ep k"
      and "\<forall>k. k \<notin> {''season_number'', ''number'', ''length''} \<longrightarrow>
             map_of attrs' k = map_of attrs k"
      and "h' = h\<lparr>http := (http h)(episode_request (EPISODE_BASE_URL @ disp) := Inr j')\<rparr>"
  shows "(\<forall>r. fst (real_extract h disp s) = Inr r \<longrightarrow>
            (map_of attrs ''season_number'' = None \<or>
             \<not> numeric h (dict_get attrs ''season_number'') \<longrightarrow> season_number r = None) \<and>
            (map_of attrs ''number'' = None \<or>
             \<not> numeric h (dict_get attrs ''number'') \<longrightarrow> episode_number r = None) \<and>
            (map_of attrs ''length'' = None \<or>
             \<not> numeric h (dict_get attrs ''length'') \<longrightarrow> duration r = None))
       \<and> fst (real_extract h' disp s) =
           map_sum id
             (\<lambda>r. r\<lparr>season_number := int_or_none h (dict_get attrs' ''season_number''),
                     episode_number := int_or_none h (dict_get attrs' ''number''),
                     duration := int_or_none h (dict_get attrs' ''length'')\<rparr>)
             (fst (real_extract h disp s))"
proof (intro conjI allI impI)
  fix r
  assume "fst (real_extract h disp s) = Inr r"
  from real_extract_success [OF this] assms(1)
  obtain fmts where "episode_info h disp fmts j = Inr r" by auto
  note f = episode_info_title(3-5) [OF this assms(2), of attrs]
  have n: "map_of attrs k = None \<or> \<not> numeric h (dict_get attrs k) \<Longrightarrow>
           int_or_none h (dict_get attrs k) = None" for k
    by (auto simp: dict_get_def int_or_none_non_numeric)
  show "season_number r = None"
    if "map_of attrs ''season_number'' = None \<or> \<not> numeric h (dict_get attrs ''season_number'')"
    using that f n assms(3) by simp
  show "episode_number r = None"
    if "map_of attrs ''number'' = None \<or> \<not> numeric h (dict_get attrs ''number'')"
    using that f n assms(3) by simp
  show "duration r = None"
    if "map_of attrs ''length'' = None \<or> \<not> numeric h (dict_get attrs ''length'')"
    using that f n assms(3) by simp
next
  have "episode_info h' disp fmts j' =
           map_sum id
             (\<lambda>r. r\<lparr>season_number := int_or_none h (dict_get attrs' ''season_number''),
                     episode_number := int_or_none h (dict_get attrs' ''number''),
                     duration := int_or_none h (dict_get attrs' ''length'')\<rparr>)
             (episode_info h disp fmts j)" for fmts
    unfolding assms(8) episode_info_other_response
    by (rule episode_info_numbers_replaced [OF assms(2-7)])
  then show "fst (real_extract h' disp s) =
           map_sum id
             (\<lambda>r. r\<lparr>season_number := int_or_none h (dict_get attrs' ''season_number''),
                     episode_number := int_or_none h (dict_get attrs' ''number''),
                     duration := int_or_none h (dict_get attrs' ''length'')\<rparr>)
             (fst (real_extract h disp s))"
    unfolding real_extract_cases [of h'] real_extract_cases [of h]
    using assms(1)
    by (simp add: assms(8) manifest_url_other_response split: prod.splits sum.splits)
qed

theorem numeric_fields_permissive_witness:
  "map_sum id (\<lambda>r. (season_number r, episode_number r, duration r))
     (fst (real_extract (public_host ''x'' (episode_response garbled_numbers [])) ''x'' state0))
     = Inr (None, None, None) \<and>
   map_sum id (\<lambda>r. (season_number r, episode_number r, duration r))
     (fst (real_extract
        ((public_host ''x'' (episode_response garbled_numbers []))
           \<lparr>http := (http (public_host ''x'' (episode_response garbled_numbers [])))
                      (episode_request (EPISODE_BASE_URL @ ''x'')
                         := Inr (episode_response announcement []))\<rparr>)
        ''x'' state0))
     = Inr (Some 2, Some 10, Some 145)"
proof -
  let ?h = "public_host ''x'' (episode_response garbled_numbers [])"
  let ?ep = "\<lambda>a. [(''id'', JInt 9156), (''uuid'', JStr ''b8d2ff1c''), (''attributes'', JObj a),
                  (''included'', JObj [(''images'', JList [])])]"
  have 1: "http ?h (episode_request (EPISODE_BASE_URL @ ''x'')) =
             Inr (episode_response garbled_numbers [])"
    by (simp add: run_episode)
  have 2: "first_data (episode_response a []) = Inr (JObj (?ep a))" for a
    by (simp add: run_episode)
  have 3: "map_of (?ep a) ''attributes'' = Some (JObj a)" for a
    by simp
  have 4: "\<forall>k. k \<noteq> ''attributes'' \<longrightarrow> map_of (?ep announcement) k = map_of (?ep garbled_numbers) k"
    by simp
  have 5: "\<forall>k. k \<notin> {''season_number'', ''number'', ''length''} \<longrightarrow>
             map_of announcement k = map_of garbled_numbers k"
    by (simp add: announcement_def garbled_numbers_def)
  obtain r where r: "fst (real_extract ?h ''x'' state0) = Inr r"
    by (simp add: run_episode garbled_numbers_def)
  from numeric_fields_permissive [OF 1 2 3 2 3 4 5 refl, of state0] r
  show ?thesis
    unfolding r by (simp add: garbled_numbers_def announcement_def dict_get_def null_host_def public_host_def)
qed

section \<open>Properties of the series resolver\<close>

lemma calls_fetch_all: "calls (fetch_all h reqs s) = calls s @ reqs"
  unfolding fetch_all_def
  by (induction reqs arbitrary: s) (simp_all add: download_json_def)

lemma fetch_all_Cons:
  "fetch_all h (r # reqs) s = fetch_all h reqs (snd (download_json h r s))"
  by (simp add: fetch_all_def)

lemma fetch_all_append:
  "fetch_all h (xs @ ys) s = fetch_all h ys (fetch_all h xs s)"
  by (simp add: fetch_all_def)

lemma walk_default_page:
  "get_season_episodes_pages depth h link slug None s =
   get_season_episodes_pages depth h link slug (Some 1) s"
  by (cases depth) simp_all

text \<open>One step of the walk on a page that is answered well.\<close>

lemma walk_step:
  assumes "well_paged h link total_pages page"
  shows "get_season_episodes_pages (Suc depth) h link (JStr slug) (Some page) s =
     (let s1 = snd (download_json h (page_request link page) s) in
      if page < total_pages then
        (case get_season_episodes_pages depth h link (JStr slug) (Some (page + 1)) s1 of
           (Inl e, s2) \<Rightarrow> (Inl e, s2)
         | (Inr more_entries, s2) \<Rightarrow> (Inr (entries_at h link page @ more_entries), s2))
      else (Inr (entries_at h link page), s1))"
proof -
  from assms obtain se_page es where
    r: "http h (page_request link page) = Inr se_page"
       "subscript se_page ''page'' = Inr (JInt page)"
       "subscript se_page ''total_pages'' = Inr (JInt total_pages)"
       "page_entries se_page = Inr es"
    by (auto simp: well_paged_def split: sum.splits)
  then have e: "entries_at h link page = es" by (simp add: entries_at_def)
  from r show ?thesis
    unfolding e by (simp add: download_json_def int_eq_def num_less_def Let_def)
qed

lemma walk_stable:
  assumes "\<forall>p. page \<le> p \<and> p \<le> max page total_pages \<longrightarrow> well_paged h link total_pages p"
      and "length [page..max page total_pages] \<le> depth"
  shows "get_season_episodes_pages depth h link (JStr slug) (Some page) s =
           (Inr (concat (map (entries_at h link) [page..max page total_pages])),
            fetch_all h (map (page_request link) [page..max page total_pages]) s)"
  using assms
proof (induction depth arbitrary: page s)
  case 0
  then show ?case by simp
next
  case (Suc depth)
  from Suc.prems(1) have w: "well_paged h link total_pages page" by simp
  show ?case
  proof (cases "page < total_pages")
    case True
    then have m: "max (page + 1) total_pages = total_pages" "max page total_pages = total_pages"
      by simp_all
    from True have u: "[page..total_pages] = page # [page + 1..total_pages]"
      by (simp add: upto_rec1)
    have "get_season_episodes_pages depth h link (JStr slug) (Some (page + 1))
            (snd (download_json h (page_request link page) s)) =
          (Inr (concat (map (entries_at h link) [page + 1..max (page + 1) total_pages])),
           fetch_all h (map (page_request link) [page + 1..max (page + 1) total_pages])
             (snd (download_json h (page_request link page) s)))"
    proof (rule Suc.IH)
      show "\<forall>p. page + 1 \<le> p \<and> p \<le> max (page + 1) total_pages \<longrightarrow>
              well_paged h link total_pages p"
        using Suc.prems(1) m by auto
      show "length [page + 1..max (page + 1) total_pages] \<le> depth"
        using Suc.prems(2) True by simp
    qed
    with True show ?thesis
      by (simp add: walk_step [OF w] m u fetch_all_Cons del: get_season_episodes_pages.simps)
  next
    case False
    then have "max page total_pages = page" by simp
    with False show ?thesis
      by (simp add: walk_step [OF w] fetch_all_Cons fetch_all_def
          del: get_season_episodes_pages.simps)
  qed
qed

text \<open>
  C3, as amended. Let the backend answer every page from \<open>n\<close> on with its own number
  and one fixed \<open>total_pages\<close>. A call of \<^verbatim>\<open>get_season_episodes_pages\<close> for page
  \<open>n\<close> goes on to page \<open>n + 1\<close> exactly when \<open>n < total_pages\<close>, and is done, with
  the entries of page \<open>n\<close>, exactly when \<open>total_pages \<le> n\<close>. With room on the call
  stack for one nested call per page the walk returns: it has fetched the pages
  \<open>n..max n total_pages\<close>, each once and in order, so the last page fetched is
  \<open>total_pages\<close> when \<open>n \<le> total_pages\<close>, and \<open>n\<close> itself otherwise.
\<close>

theorem pagination_terminates:
  assumes "\<forall>p. n \<le> p \<and> p \<le> max n total_pages \<longrightarrow> well_paged h link total_pages p"
  shows "(n < total_pages \<longrightarrow>
            get_season_episodes_pages (Suc depth) h link (JStr slug) (Some n) s =
              (case get_season_episodes_pages depth h link (JStr slug) (Some (n + 1))
                      (snd (download_json h (page_request link n) s)) of
                 (Inl e, s2) \<Rightarrow> (Inl e, s2)
               | (Inr more_entries, s2) \<Rightarrow> (Inr (entries_at h link n @ more_entries), s2)))
       \<and> (total_pages \<le> n \<longrightarrow>
            get_season_episodes_pages (Suc depth) h link (JStr slug) (Some n) s =
              (Inr (entries_at h link n), snd (download_json h (page_request link n) s)))
       \<and> (length [n..max n total_pages] \<le> depth \<longrightarrow>
            get_season_episodes_pages depth h link (JStr slug) (Some n) s =
              (Inr (concat (map (entries_at h link) [n..max n total_pages])),
               fetch_all h (map (page_request link) [n..max n total_pages]) s)
            \<and> calls (snd (get_season_episodes_pages depth h link (JStr slug) (Some n) s)) =
                calls s @ map (page_request link) [n..max n total_pages])
       \<and> last [n..max n total_pages] = max n total_pages"
proof (intro conjI impI)
  from assms have w: "well_paged h link total_pages n" by simp
  show "get_season_episodes_pages (Suc depth) h link (JStr slug) (Some n) s =
              (case get_season_episodes_pages depth h link (JStr slug) (Some (n + 1))
                      (snd (download_json h (page_request link n) s)) of
                 (Inl e, s2) \<Rightarrow> (Inl e, s2)
               | (Inr more_entries, s2) \<Rightarrow> (Inr (entries_at h link n @ more_entries), s2))"
    if "n < total_pages"
    using that by (simp add: walk_step [OF w] del: get_season_episodes_pages.simps)
  show "get_season_episodes_pages (Suc depth) h link (JStr slug) (Some n) s =
              (Inr (entries_at h link n), snd (download_json h (page_request link n) s))"
    if "total_pages \<le> n"
    using that by (simp add: walk_step [OF w] del: get_season_episodes_pages.simps)
  show r: "get_season_episodes_pages depth h link (JStr slug) (Some n) s =
              (Inr (concat (map (entries_at h link) [n..max n total_pages])),
               fetch_all h (map (page_request link) [n..max n total_pages]) s)"
    if "length [n..max n total_pages] \<le> depth"
    using assms that by (rule walk_stable)
  show "calls (snd (get_season_episodes_pages depth h link (JStr slug) (Some n) s)) =
                calls s @ map (page_request link) [n..max n total_pages]"
    if "length [n..max n total_pages] \<le> depth"
    using r [OF that] by (simp add: calls_fetch_all)
  show "last [n..max n total_pages] = max n total_pages"
    by (simp add: upto_rec2)
qed

lemmas run_series =
  three_pages_host_def empty_season_host_def wrong_page_host_def series_host_def null_host_def
  listing_page_def page_entries_def entry_of_def page_request_def add_per_page_def
  domain_def api_domain_def int_eq_def num_less_def download_json_def state0_def
  season_json_def lets_play_season_def specials_season_def lets_play_def specials_def
  season_link_def season_slug_of_def

lemma well_paged_three_pages:
  "\<forall>p. 1 \<le> p \<and> p \<le> max 1 3 \<longrightarrow> well_paged three_pages_host lets_play 3 p"
proof (intro allI impI)
  fix p :: int
  assume "1 \<le> p \<and> p \<le> max 1 3"
  then have "p = 1 \<or> p = 2 \<or> p = 3" by auto
  then show "well_paged three_pages_host lets_play 3 p"
    by (auto simp: well_paged_def three_pages_host_def null_host_def listing_page_def
        page_entries_def entry_of_def page_request_def add_per_page_def)
qed

theorem pagination_terminates_witness:
  "get_season_episodes_pages 3 three_pages_host lets_play (JStr ''lets-play-2019'') (Some 1) state0 =
     (Inr [''https://roosterteeth.com/watch/lets-play-2019-1'',
           ''https://roosterteeth.com/watch/lets-play-2019-2'',
           ''https://roosterteeth.com/watch/lets-play-2019-3'',
           ''https://roosterteeth.com/watch/lets-play-2019-4''],
      state0\<lparr>calls := [page_request lets_play 1, page_request lets_play 2,
                        page_request lets_play 3]\<rparr>)"
proof -
  have u: "[1..3] = [1, 2, 3::int]" by (simp add: upto_rec1)
  from pagination_terminates [OF well_paged_three_pages, of 3 "''lets-play-2019''" state0]
  show ?thesis
    by (simp add: u entries_at_def three_pages_host_def null_host_def listing_page_def
        page_entries_def entry_of_def page_request_def add_per_page_def domain_def
        fetch_all_def download_json_def state0_def)
qed

text \<open>
  C3 as stated fails for a start beyond the end: from page 2 of a listing that
  declares one page in total, the walk is done after fetching page 2, which is not
  \<open>total_pages\<close>.
\<close>

theorem pagination_terminates_counterexample:
  "http past_the_end_host (page_request lets_play 2) = Inr (listing_page 2 1 []) \<and>
   get_season_episodes_pages 3 past_the_end_host lets_play (JStr ''lets-play-2019'') (Some 2) state0 =
     (Inr [], state0\<lparr>calls := [page_request lets_play 2]\<rparr>)"
  by (simp add: eval_nat_numeral past_the_end_host_def null_host_def listing_page_def
        page_entries_def page_request_def add_per_page_def int_eq_def num_less_def
        download_json_def state0_def)

lemma subscript_no_assertion: "subscript x k \<noteq> Inl AssertionError"
  by (cases x) (auto split: option.splits)

lemma entry_of_no_assertion: "entry_of l \<noteq> Inl AssertionError"
proof -
  have "str_add p x \<noteq> Inl AssertionError" for p x by (cases x) auto
  then show ?thesis
    by (auto simp: entry_of_def subscript_no_assertion split: sum.splits)
qed

lemma link_loop_no_assertion: "link_loop ls \<noteq> Inl AssertionError"
  by (induction ls) (auto simp: entry_of_no_assertion split: sum.splits)

lemma page_entries_no_assertion: "page_entries j \<noteq> Inl AssertionError"
proof -
  have "py_iter d \<noteq> Inl AssertionError" for d by (cases d) auto
  then show ?thesis
    by (auto simp: page_entries_def subscript_no_assertion link_loop_no_assertion
        split: sum.splits)
qed

lemma num_less_no_assertion: "num_less a b \<noteq> Inl AssertionError"
  by (auto simp: num_less_def split: option.splits)

lemma walk_unfold:
  "get_season_episodes_pages (Suc depth) h link (JStr slug) (Some page) s =
     (case http h (page_request link page) of
        Inl (m, c) \<Rightarrow> (Inl (ExtractorError m c), snd (download_json h (page_request link page) s))
      | Inr se_page \<Rightarrow>
     (case subscript se_page ''page'' of
        Inl e \<Rightarrow> (Inl e, snd (download_json h (page_request link page) s))
      | Inr pg \<Rightarrow>
          if \<not> int_eq page pg
          then (Inl AssertionError, snd (download_json h (page_request link page) s))
          else
     (case page_entries se_page of
        Inl e \<Rightarrow> (Inl e, snd (download_json h (page_request link page) s))
      | Inr entries \<Rightarrow>
     (case subscript se_page ''total_pages'' of
        Inl e \<Rightarrow> (Inl e, snd (download_json h (page_request link page) s))
      | Inr total_pages \<Rightarrow>
     (case num_less pg total_pages of
        Inl e \<Rightarrow> (Inl e, snd (download_json h (page_request link page) s))
      | Inr b \<Rightarrow>
          if b then
            (case get_season_episodes_pages depth h link (JStr slug) (Some (page + 1))
                    (snd (download_json h (page_request link page) s)) of
               (Inl e, s2) \<Rightarrow> (Inl e, s2)
             | (Inr more_entries, s2) \<Rightarrow> (Inr (entries @ more_entries), s2))
          else (Inr entries, snd (download_json h (page_request link page) s)))))))"
  by (simp add: download_json_def split: sum.splits prod.splits bool.splits)

lemma walk_not_text:
  "(\<forall>slug. slug0 \<noteq> JStr slug) \<Longrightarrow>
   get_season_episodes_pages (Suc depth) h link slug0 page_arg s = (Inl TypeError, s)"
  by (cases slug0) simp_all

lemma walk_no_assertion:
  assumes "\<forall>p j pg. http h (page_request link p) = Inr j \<and> subscript j ''page'' = Inr pg
             \<longrightarrow> int_eq p pg"
  shows "fst (get_season_episodes_pages depth h link slug0 page_arg s) \<noteq> Inl AssertionError"
proof (induction depth arbitrary: page_arg s)
  case 0
  show ?case by simp
next
  case (Suc depth)
  show ?case
  proof (cases "\<exists>slug. slug0 = JStr slug")
    case False
    then show ?thesis by (simp add: walk_not_text del: get_season_episodes_pages.simps)
  next
    case True
    then obtain slug where sl: "slug0 = JStr slug" by blast
    from assms have e: "http h (page_request link page) = Inr j \<Longrightarrow>
        subscript j ''page'' = Inr pg \<Longrightarrow> int_eq page pg" for j pg page
      by blast
    have ih: "fst (get_season_episodes_pages depth h link (JStr slug) (Some (page + 1)) t)
                \<noteq> Inl AssertionError" for t page
      using Suc.IH [of "Some (page + 1)" t] by (simp add: sl)
    have ih': "get_season_episodes_pages depth h link (JStr slug) (Some (page + 1)) t
                \<noteq> (Inl AssertionError, t')" for t t' page
      using ih [of page t] by auto
    have main: "fst (get_season_episodes_pages (Suc depth) h link (JStr slug) (Some page) s)
                \<noteq> Inl AssertionError" for page
      unfolding walk_unfold
      by (auto simp: e ih' subscript_no_assertion page_entries_no_assertion num_less_no_assertion
          split: sum.splits prod.splits)
    show ?thesis
    proof (cases page_arg)
      case None
      show ?thesis unfolding sl None walk_default_page by (rule main)
    next
      case (Some page)
      show ?thesis unfolding sl Some by (rule main)
    qed
  qed
qed

lemma walk_success_cases:
  assumes "get_season_episodes_pages (Suc depth) h link slug0 (Some page) s = (Inr es, s')"
  shows "\<exists>slug j pg. slug0 = JStr slug \<and> http h (page_request link page) = Inr j \<and>
           subscript j ''page'' = Inr pg \<and> int_eq page pg \<and>
           (s' = snd (download_json h (page_request link page) s) \<or>
            (\<exists>more. get_season_episodes_pages depth h link slug0 (Some (page + 1))
                       (snd (download_json h (page_request link page) s)) = (Inr more, s')))"
proof (cases "\<exists>slug. slug0 = JStr slug")
  case False
  with assms show ?thesis by (simp add: walk_not_text del: get_season_episodes_pages.simps)
next
  case True
  then obtain slug where sl: "slug0 = JStr slug" by blast
  from assms show ?thesis
    unfolding sl walk_unfold
    by (auto split: sum.splits prod.splits if_splits)
qed

lemma walk_success_echoed:
  "get_season_episodes_pages depth h link slug0 (Some page) s = (Inr es, s') \<Longrightarrow>
   \<exists>n. calls s' = calls s @ map (page_request link) [page..page + int n] \<and>
       (\<forall>p\<in>set [page..page + int n].
          \<exists>j pg. http h (page_request link p) = Inr j \<and>
                 subscript j ''page'' = Inr pg \<and> int_eq p pg)"
proof (induction depth arbitrary: page s es)
  case 0
  then show ?case by simp
next
  case (Suc depth)
  let ?s1 = "snd (download_json h (page_request link page) s)"
  have c1: "calls ?s1 = calls s @ [page_request link page]"
    by (simp add: download_json_def)
  from walk_success_cases [OF Suc.prems]
  obtain j pg where
    here: "http h (page_request link page) = Inr j" "subscript j ''page'' = Inr pg"
          "int_eq page pg"
    and rest: "s' = ?s1 \<or>
       (\<exists>more. get_season_episodes_pages depth h link slug0 (Some (page + 1)) ?s1
                 = (Inr more, s'))"
    by blast
  from rest show ?case
  proof
    assume "s' = ?s1"
    with here c1 have "calls s' = calls s @ map (page_request link) [page..page + int 0] \<and>
       (\<forall>p\<in>set [page..page + int 0].
          \<exists>j pg. http h (page_request link p) = Inr j \<and>
                 subscript j ''page'' = Inr pg \<and> int_eq p pg)"
      by simp
    then show ?thesis by blast
  next
    assume "\<exists>more. get_season_episodes_pages depth h link slug0 (Some (page + 1)) ?s1
                 = (Inr more, s')"
    then obtain more where
      "get_season_episodes_pages depth h link slug0 (Some (page + 1)) ?s1 = (Inr more, s')"
      by blast
    from Suc.IH [OF this] obtain n where
      n: "calls s' = calls ?s1 @ map (page_request link) [page + 1..page + 1 + int n]"
         "\<forall>p\<in>set [page + 1..page + 1 + int n].
            \<exists>j pg. http h (page_request link p) = Inr j \<and>
                   subscript j ''page'' = Inr pg \<and> int_eq p pg"
      by blast
    have u: "[page..page + int (Suc n)] = page # [page + 1..page + 1 + int n]"
      by (simp add: upto_rec1 add.commute add.left_commute)
    from n here c1 have "calls s' = calls s @ map (page_request link) [page..page + int (Suc n)] \<and>
       (\<forall>p\<in>set [page..page + int (Suc n)].
          \<exists>j pg. http h (page_request link p) = Inr j \<and>
                 subscript j ''page'' = Inr pg \<and> int_eq p pg)"
      unfolding u by auto
    then show ?thesis by blast
  qed
qed

lemma season_walk:
  assumes "stable_season depth h season"
  shows "\<exists>l slug. season_link season = Inr l \<and> season_slug_of season = Inr (JStr slug) \<and>
           get_season_episodes_pages depth h l (JStr slug) None s =
             (Inr (season_entries h season), fetch_all h (season_requests h season) s)"
proof -
  from assms obtain l slug where
    l: "season_link season = Inr l" and sl: "season_slug_of season = Inr (JStr slug)"
    and w: "list_all (well_paged h l (declared_total h l)) (season_pages h season)"
    and d: "length (season_pages h season) \<le> depth"
    by (auto simp: stable_season_def split: sum.splits json.splits)
  from l have lo: "link_of season = l" by (simp add: link_of_def)
  let ?T = "declared_total h l"
  from w have "\<forall>p. 1 \<le> p \<and> p \<le> max 1 ?T \<longrightarrow> well_paged h l ?T p"
    by (simp add: season_pages_def lo list_all_iff)
  moreover from d have "length [1..max 1 ?T] \<le> depth"
    by (simp add: season_pages_def lo)
  ultimately have "get_season_episodes_pages depth h l (JStr slug) (Some 1) s =
           (Inr (concat (map (entries_at h l) [1..max 1 ?T])),
            fetch_all h (map (page_request l) [1..max 1 ?T]) s)"
    by (rule walk_stable)
  then have "get_season_episodes_pages depth h l (JStr slug) None s =
             (Inr (season_entries h season), fetch_all h (season_requests h season) s)"
    by (simp only: walk_default_page season_entries_def season_requests_def season_pages_def lo)
  with l sl show ?thesis by blast
qed

lemma season_loop_stable:
  assumes "\<forall>sn\<in>set seasons. stable_season depth h sn"
  shows "season_loop depth h seasons s =
           (Inr (concat (map (season_entries h) seasons)),
            fetch_all h (concat (map (season_requests h) seasons)) s)"
  using assms
proof (induction seasons arbitrary: s)
  case Nil
  show ?case by (simp add: fetch_all_def)
next
  case (Cons season seasons)
  from Cons.prems have "stable_season depth h season" by simp
  from season_walk [OF this, of s] obtain l slug where
    w: "season_link season = Inr l" "season_slug_of season = Inr (JStr slug)"
       "get_season_episodes_pages depth h l (JStr slug) None s =
          (Inr (season_entries h season), fetch_all h (season_requests h season) s)"
    by blast
  from Cons.prems have "\<forall>sn\<in>set seasons. stable_season depth h sn" by simp
  from Cons.IH [OF this] w show ?case
    by (simp add: fetch_all_append)
qed

lemma link_loop_map: "link_loop links = Inr es \<Longrightarrow> map entry_of links = map Inr es"
  by (induction links arbitrary: es) (auto split: sum.splits)

lemma well_paged_entries:
  assumes "well_paged h l total_pages p"
  shows "\<exists>se_page items. http h (page_request l p) = Inr se_page \<and>
           data_items se_page = Inr items \<and>
           map entry_of items = map Inr (entries_at h l p)"
proof -
  from assms obtain se_page es where
    r: "http h (page_request l p) = Inr se_page" "page_entries se_page = Inr es"
    by (auto simp: well_paged_def split: sum.splits)
  then obtain items where i: "data_items se_page = Inr items" "link_loop items = Inr es"
    by (auto simp: page_entries_def data_items_def split: sum.splits)
  from r have "entries_at h l p = es" by (simp add: entries_at_def)
  with r i link_loop_map [OF i(2)] show ?thesis by blast
qed

lemma stable_season_pages:
  assumes "stable_season depth h sn" and "p \<in> set (season_pages h sn)"
  shows "well_paged h (link_of sn) (declared_total h (link_of sn)) p"
proof -
  from assms(1) obtain l where "season_link sn = Inr l"
    and w: "list_all (well_paged h l (declared_total h l)) (season_pages h sn)"
    by (auto simp: stable_season_def split: sum.splits json.splits)
  then have "link_of sn = l" by (simp add: link_of_def)
  with w assms(2) show ?thesis by (simp add: list_all_iff)
qed

text \<open>
  C2, as amended. Let the show and its seasons listing be fetched, and let every season
  be stable, with \<open>total_pages\<close> the total its listing declares. Then the walk of each
  season fetches exactly the pages \<open>1..max 1 total_pages\<close>, each once and in order,
  and \<^verbatim>\<open>_real_extract\<close> returns the playlist whose entries are the references of all
  seasons in listing order, within a season in page order, within a page in the order
  of its \<^verbatim>\<open>data\<close>, each the site's domain followed by the link's
  \<^verbatim>\<open>canonical_links.self\<close>; their number is the sum of the numbers of entries of the
  pages.
\<close>

theorem series_entries_in_order:
  assumes "http h (show_request show_id) = Inr series_json"
      and "first_data series_json = Inr data0"
      and "seasons_link data0 = Inr link"
      and "http h (Get (Url link [])) = Inr seasons_json"
      and "data_items seasons_json = Inr seasons"
      and "show_title data0 = Inr t"
      and "\<forall>sn\<in>set seasons. stable_season depth h sn"
  shows "fst (series_real_extract depth h show_id s) =
           Inr \<lparr>playlist_type = ''playlist'', playlist_id = show_id, playlist_title = t,
                playlist_entries = map UrlResult (concat (map (season_entries h) seasons))\<rparr>
       \<and> calls (snd (series_real_extract depth h show_id s)) =
           calls s @ [show_request show_id, Get (Url link [])]
             @ concat (map (season_requests h) seasons)
       \<and> (\<forall>sn\<in>set seasons.
            season_requests h sn =
              map (page_request (link_of sn)) [1..max 1 (declared_total h (link_of sn))]
            \<and> season_entries h sn =
              concat (map (entries_at h (link_of sn))
                        [1..max 1 (declared_total h (link_of sn))])
            \<and> (\<forall>p\<in>set (season_pages h sn).
                 \<exists>se_page items. http h (page_request (link_of sn) p) = Inr se_page \<and>
                   data_items se_page = Inr items \<and>
                   map entry_of items = map Inr (entries_at h (link_of sn) p)))
       \<and> length (concat (map (season_entries h) seasons)) =
           sum_list (map (\<lambda>sn. sum_list (map (\<lambda>p. length (entries_at h (link_of sn) p))
                                            (season_pages h sn))) seasons)"
proof (intro conjI ballI)
  let ?s2 = "fetch_all h [show_request show_id, Get (Url link [])] s"
  have r: "series_real_extract depth h show_id s =
           (Inr \<lparr>playlist_type = ''playlist'', playlist_id = show_id, playlist_title = t,
                playlist_entries = map UrlResult (concat (map (season_entries h) seasons))\<rparr>,
            fetch_all h (concat (map (season_requests h) seasons)) ?s2)"
    using assms(1-6) season_loop_stable [OF assms(7)]
    by (simp add: series_real_extract_def download_json_def fetch_all_def)
  show "fst (series_real_extract depth h show_id s) =
           Inr \<lparr>playlist_type = ''playlist'', playlist_id = show_id, playlist_title = t,
                playlist_entries = map UrlResult (concat (map (season_entries h) seasons))\<rparr>"
    by (simp add: r)
  show "calls (snd (series_real_extract depth h show_id s)) =
           calls s @ [show_request show_id, Get (Url link [])]
             @ concat (map (season_requests h) seasons)"
    by (simp add: r calls_fetch_all)
  show "length (concat (map (season_entries h) seasons)) =
           sum_list (map (\<lambda>sn. sum_list (map (\<lambda>p. length (entries_at h (link_of sn) p))
                                            (season_pages h sn))) seasons)"
    by (simp add: length_concat season_entries_def comp_def)
next
  fix sn
  show "season_requests h sn =
              map (page_request (link_of sn)) [1..max 1 (declared_total h (link_of sn))]"
    by (simp add: season_requests_def season_pages_def)
  show "season_entries h sn =
              concat (map (entries_at h (link_of sn))
                        [1..max 1 (declared_total h (link_of sn))])"
    by (simp add: season_entries_def season_pages_def)
next
  fix sn p
  assume "sn \<in> set seasons" and p: "p \<in> set (season_pages h sn)"
  with assms(7) have "stable_season depth h sn" by blast
  from stable_season_pages [OF this p]
  show "\<exists>se_page items. http h (page_request (link_of sn) p) = Inr se_page \<and>
          data_items se_page = Inr items \<and>
          map entry_of items = map Inr (entries_at h (link_of sn) p)"
    by (rule well_paged_entries)
qed

lemma lets_play_facts:
  "season_link lets_play_season = Inr lets_play"
  "season_slug_of lets_play_season = Inr (JStr ''lets-play-2019'')"
  "link_of lets_play_season = lets_play"
  "declared_total series_host lets_play = 3"
  "season_pages series_host lets_play_season = [1, 2, 3]"
proof -
  show l: "season_link lets_play_season = Inr lets_play"
    by (simp add: run_series)
  show "season_slug_of lets_play_season = Inr (JStr ''lets-play-2019'')"
    by (simp add: run_series)
  from l show k: "link_of lets_play_season = lets_play"
    by (simp add: link_of_def)
  show t: "declared_total series_host lets_play = 3"
    by (simp add: declared_total_def run_series show_request_def)
  show "season_pages series_host lets_play_season = [1, 2, 3]"
    by (simp add: season_pages_def k t upto_rec1)
qed

lemma specials_facts:
  "season_link specials_season = Inr specials"
  "season_slug_of specials_season = Inr (JStr ''lets-play-specials'')"
  "link_of specials_season = specials"
  "declared_total series_host specials = 0"
  "season_pages series_host specials_season = [1]"
proof -
  show l: "season_link specials_season = Inr specials"
    by (simp add: run_series)
  show "season_slug_of specials_season = Inr (JStr ''lets-play-specials'')"
    by (simp add: run_series)
  from l show k: "link_of specials_season = specials"
    by (simp add: link_of_def)
  show t: "declared_total series_host specials = 0"
    by (simp add: declared_total_def run_series show_request_def)
  show "season_pages series_host specials_season = [1]"
    by (simp add: season_pages_def k t)
qed

lemma stable_lets_play: "stable_season 3 series_host lets_play_season"
proof -
  have "well_paged series_host lets_play 3 1" "well_paged series_host lets_play 3 2"
       "well_paged series_host lets_play 3 3"
    by (simp_all add: well_paged_def run_series show_request_def)
  then show ?thesis
    by (simp add: stable_season_def lets_play_facts)
qed

lemma stable_specials: "stable_season 3 series_host specials_season"
proof -
  have "well_paged series_host specials 0 1"
    by (simp add: well_paged_def run_series show_request_def)
  then show ?thesis
    by (simp add: stable_season_def specials_facts)
qed

theorem series_entries_in_order_witness:
  "fst (series_real_extract 3 series_host ''lets-play'' state0) =
     Inr \<lparr>playlist_type = ''playlist'', playlist_id = ''lets-play'',
          playlist_title = JStr ''Lets Play'',
          playlist_entries =
            [UrlResult ''https://roosterteeth.com/watch/lets-play-2019-1'',
             UrlResult ''https://roosterteeth.com/watch/lets-play-2019-2'',
             UrlResult ''https://roosterteeth.com/watch/lets-play-2019-3'',
             UrlResult ''https://roosterteeth.com/watch/lets-play-2019-4'']\<rparr> \<and>
   calls (snd (series_real_extract 3 series_host ''lets-play'' state0)) =
     [show_request ''lets-play'',
      Get (Url ''https://svod-be.roosterteeth.com/api/v1/shows/lets-play/seasons'' []),
      page_request lets_play 1, page_request lets_play 2, page_request lets_play 3,
      page_request specials 1]"
proof -
  have u: "[1..3] = [1, 2, 3::int]" by (simp add: upto_rec1)
  have 1: "http series_host (show_request ''lets-play'') = Inr lets_play_show"
    by (simp add: series_host_def)
  have 2: "first_data lets_play_show =
             Inr (JObj [(''attributes'', JObj [(''title'', JStr ''Lets Play'')]),
                        (''links'', JObj [(''seasons'', JStr ''/api/v1/shows/lets-play/seasons'')])])"
    by (simp add: first_data_def lets_play_show_def)
  have 3: "seasons_link (JObj [(''attributes'', JObj [(''title'', JStr ''Lets Play'')]),
                        (''links'', JObj [(''seasons'', JStr ''/api/v1/shows/lets-play/seasons'')])])
           = Inr ''https://svod-be.roosterteeth.com/api/v1/shows/lets-play/seasons''"
    by (simp add: seasons_link_def api_domain_def)
  have 4: "http series_host
             (Get (Url ''https://svod-be.roosterteeth.com/api/v1/shows/lets-play/seasons'' []))
           = Inr lets_play_seasons"
    by (simp add: series_host_def show_request_def api_domain_def)
  have 5: "data_items lets_play_seasons = Inr [lets_play_season, specials_season]"
    by (simp add: data_items_def lets_play_seasons_def)
  have 6: "show_title (JObj [(''attributes'', JObj [(''title'', JStr ''Lets Play'')]),
                        (''links'', JObj [(''seasons'', JStr ''/api/v1/shows/lets-play/seasons'')])])
           = Inr (JStr ''Lets Play'')"
    by (simp add: show_title_def)
  have 7: "\<forall>sn\<in>set [lets_play_season, specials_season]. stable_season 3 series_host sn"
    by (simp add: stable_lets_play stable_specials)
  have e: "season_entries series_host lets_play_season =
             [''https://roosterteeth.com/watch/lets-play-2019-1'',
              ''https://roosterteeth.com/watch/lets-play-2019-2'',
              ''https://roosterteeth.com/watch/lets-play-2019-3'',
              ''https://roosterteeth.com/watch/lets-play-2019-4'']"
          "season_entries series_host specials_season = []"
    by (simp_all add: season_entries_def lets_play_facts specials_facts entries_at_def)
       (simp_all add: run_series show_request_def)
  have q: "season_requests series_host lets_play_season =
             [page_request lets_play 1, page_request lets_play 2, page_request lets_play 3]"
          "season_requests series_host specials_season = [page_request specials 1]"
    by (simp_all add: season_requests_def lets_play_facts specials_facts)
  from series_entries_in_order [OF 1 2 3 4 5 6 7, of state0]
  show ?thesis by (simp add: e q state0_def)
qed

text \<open>
  C2 as stated fails for an empty season whose listing declares a total of 0 pages:
  the walk fetches page 1, which is not among the pages \<open>1..0\<close>.
\<close>

theorem series_entries_in_order_counterexample:
  "http empty_season_host (page_request specials 1) = Inr (listing_page 1 0 []) \<and>
   subscript (listing_page 1 0 []) ''total_pages'' = Inr (JInt 0) \<and>
   get_season_episodes_pages 3 empty_season_host specials (JStr ''lets-play-specials'') None state0
     = (Inr [], state0\<lparr>calls := [page_request specials 1]\<rparr>) \<and>
   map (page_request specials) [1..0] = []"
  by (simp add: eval_nat_numeral empty_season_host_def null_host_def listing_page_def
        page_entries_def page_request_def add_per_page_def int_eq_def num_less_def
        download_json_def state0_def)

lemma walk_mismatch:
  assumes "\<forall>q. n \<le> q \<and> q < p \<longrightarrow> well_paged h link total_pages q"
      and "n \<le> p" and "p \<le> total_pages"
      and "http h (page_request link p) = Inr rp"
      and "subscript rp ''page'' = Inr v" and "\<not> int_eq p v"
      and "length [n..p] \<le> depth"
  shows "get_season_episodes_pages depth h link (JStr slug) (Some n) s =
           (Inl AssertionError, fetch_all h (map (page_request link) [n..p]) s)"
  using assms(1,2,7)
proof (induction depth arbitrary: n s)
  case 0
  then show ?case by simp
next
  case (Suc depth)
  show ?case
  proof (cases "n = p")
    case True
    with assms(4-6) show ?thesis
      unfolding walk_unfold by (simp add: fetch_all_def)
  next
    case False
    with Suc.prems(2) have lt: "n < p" by simp
    with Suc.prems(1) have w: "well_paged h link total_pages n" by simp
    from lt assms(3) have nt: "n < total_pages" by simp
    from lt have u: "[n..p] = n # [n + 1..p]" by (simp add: upto_rec1)
    have "get_season_episodes_pages depth h link (JStr slug) (Some (n + 1))
            (snd (download_json h (page_request link n) s)) =
          (Inl AssertionError,
           fetch_all h (map (page_request link) [n + 1..p])
             (snd (download_json h (page_request link n) s)))"
    proof (rule Suc.IH)
      show "\<forall>q. n + 1 \<le> q \<and> q < p \<longrightarrow> well_paged h link total_pages q"
        using Suc.prems(1) by auto
      show "n + 1 \<le> p" using lt by simp
      show "length [n + 1..p] \<le> depth" using Suc.prems(3) lt by simp
    qed
    with nt show ?thesis
      by (simp add: walk_step [OF w] u fetch_all_Cons del: get_season_episodes_pages.simps)
  qed
qed

lemma season_loop_after_stable:
  assumes "\<forall>sn\<in>set pre. stable_season depth h sn"
  shows "season_loop depth h (pre @ later) s =
           (case season_loop depth h later
                   (fetch_all h (concat (map (season_requests h) pre)) s) of
              (Inl e, s') \<Rightarrow> (Inl e, s')
            | (Inr es, s') \<Rightarrow> (Inr (concat (map (season_entries h) pre) @ es), s'))"
  using assms
proof (induction pre arbitrary: s)
  case Nil
  show ?case by (simp add: fetch_all_def split: prod.splits sum.splits)
next
  case (Cons season pre)
  from Cons.prems have "stable_season depth h season" by simp
  from season_walk [OF this, of s] obtain l slug where
    w: "season_link season = Inr l" "season_slug_of season = Inr (JStr slug)"
       "get_season_episodes_pages depth h l (JStr slug) None s =
          (Inr (season_entries h season), fetch_all h (season_requests h season) s)"
    by blast
  from Cons.prems have "\<forall>sn\<in>set pre. stable_season depth h sn" by simp
  from Cons.IH [OF this] w show ?case
    by (simp add: fetch_all_append split: prod.splits sum.splits)
qed

lemma series_listing_failed:
  assumes "http h (show_request show_id) = Inr series_json"
      and "first_data series_json = Inr data0"
      and "seasons_link data0 = Inr link"
      and "http h (Get (Url link [])) = Inr seasons_json"
      and "data_items seasons_json = Inr seasons"
      and "season_loop depth h seasons
             (fetch_all h [show_request show_id, Get (Url link [])] s) = (Inl e, s3)"
  shows "series_real_extract depth h show_id s = (Inl e, s3)"
  using assms by (simp add: series_real_extract_def download_json_def fetch_all_def)

text \<open>
  C4. A step of \<^verbatim>\<open>get_season_episodes_pages\<close> whose response declares a page number
  other than the one requested ends in \<^verbatim>\<open>AssertionError\<close> after that one request:
  nothing is sent again, and no entries are returned. If the backend echoes every
  requested page number, no walk ends in \<^verbatim>\<open>AssertionError\<close>. A walk that returns
  entries has requested consecutive pages, each once, and every one of them was echoed.
  The loop over the seasons does not catch the error of a walk. And wherever the
  disagreement stands: if the pages \<open>n\<close> to \<open>p - 1\<close> are answered well and the
  response for page \<open>p\<close> declares another number, the walk from \<open>n\<close> ends in
  \<^verbatim>\<open>AssertionError\<close> after the requests for \<open>n..p\<close>, each sent once, and the entries
  of the earlier pages are dropped; when that walk is the one of a season that follows
  stable seasons, \<^verbatim>\<open>_real_extract\<close> of the series ends in the same
  \<^verbatim>\<open>AssertionError\<close>, with no playlist, after the requests up to that page.
\<close>

theorem page_number_asserted:
  "(http h (page_request link page) = Inr se_page \<and> subscript se_page ''page'' = Inr pg \<and>
      \<not> int_eq page pg \<longrightarrow>
      get_season_episodes_pages (Suc depth) h link (JStr slug) (Some page) s =
        (Inl AssertionError, snd (download_json h (page_request link page) s)) \<and>
      calls (snd (get_season_episodes_pages (Suc depth) h link (JStr slug) (Some page) s)) =
        calls s @ [page_request link page])
   \<and> ((\<forall>p j v. http h (page_request link p) = Inr j \<and> subscript j ''page'' = Inr v
                 \<longrightarrow> int_eq p v) \<longrightarrow>
        fst (get_season_episodes_pages depth h link slug0 page_arg s) \<noteq> Inl AssertionError)
   \<and> (get_season_episodes_pages depth h link slug0 (Some page) s = (Inr es, s') \<longrightarrow>
        (\<exists>n. calls s' = calls s @ map (page_request link) [page..page + int n] \<and>
             (\<forall>p\<in>set [page..page + int n].
                \<exists>j v. http h (page_request link p) = Inr j \<and>
                       subscript j ''page'' = Inr v \<and> int_eq p v)))
   \<and> (season_link season = Inr l \<and> season_slug_of season = Inr sl \<and>
        get_season_episodes_pages depth h l sl None s = (Inl e, s1) \<longrightarrow>
        season_loop depth h (season # seasons) s = (Inl e, s1))
   \<and> ((\<forall>q. first \<le> q \<and> q < wrong \<longrightarrow> well_paged h link total_pages q) \<and>
        first \<le> wrong \<and> wrong \<le> total_pages \<and>
        http h (page_request link wrong) = Inr rp \<and> subscript rp ''page'' = Inr declared \<and>
        \<not> int_eq wrong declared \<and> length [first..wrong] \<le> depth \<longrightarrow>
        get_season_episodes_pages depth h link (JStr slug) (Some first) s =
          (Inl AssertionError, fetch_all h (map (page_request link) [first..wrong]) s) \<and>
        calls (snd (get_season_episodes_pages depth h link (JStr slug) (Some first) s)) =
          calls s @ map (page_request link) [first..wrong])
   \<and> (http h (show_request show_id) = Inr series_json \<and>
        first_data series_json = Inr data0 \<and> seasons_link data0 = Inr seasons_url \<and>
        http h (Get (Url seasons_url [])) = Inr seasons_json \<and>
        data_items seasons_json = Inr (pre @ season # seasons) \<and>
        (\<forall>sn\<in>set pre. stable_season depth h sn) \<and>
        season_link season = Inr l \<and> season_slug_of season = Inr (JStr slug) \<and>
        (\<forall>q. 1 \<le> q \<and> q < wrong \<longrightarrow> well_paged h l total_pages q) \<and>
        1 \<le> wrong \<and> wrong \<le> total_pages \<and>
        http h (page_request l wrong) = Inr rp \<and> subscript rp ''page'' = Inr declared \<and>
        \<not> int_eq wrong declared \<and> length [1..wrong] \<le> depth \<longrightarrow>
        fst (series_real_extract depth h show_id s) = Inl AssertionError \<and>
        calls (snd (series_real_extract depth h show_id s)) =
          calls s @ [show_request show_id, Get (Url seasons_url [])]
            @ concat (map (season_requests h) pre) @ map (page_request l) [1..wrong])"
proof (intro conjI impI)
  assume a: "http h (page_request link page) = Inr se_page \<and>
             subscript se_page ''page'' = Inr pg \<and> \<not> int_eq page pg"
  then show r: "get_season_episodes_pages (Suc depth) h link (JStr slug) (Some page) s =
        (Inl AssertionError, snd (download_json h (page_request link page) s))"
    unfolding walk_unfold by simp
  show "calls (snd (get_season_episodes_pages (Suc depth) h link (JStr slug) (Some page) s)) =
        calls s @ [page_request link page]"
    unfolding r by (simp add: download_json_def)
next
  assume "\<forall>p j v. http h (page_request link p) = Inr j \<and> subscript j ''page'' = Inr v
                 \<longrightarrow> int_eq p v"
  then show "fst (get_season_episodes_pages depth h link slug0 page_arg s) \<noteq> Inl AssertionError"
    by (rule walk_no_assertion)
next
  assume "get_season_episodes_pages depth h link slug0 (Some page) s = (Inr es, s')"
  then show "\<exists>n. calls s' = calls s @ map (page_request link) [page..page + int n] \<and>
             (\<forall>p\<in>set [page..page + int n].
                \<exists>j v. http h (page_request link p) = Inr j \<and>
                       subscript j ''page'' = Inr v \<and> int_eq p v)"
    by (rule walk_success_echoed)
next
  assume "season_link season = Inr l \<and> season_slug_of season = Inr sl \<and>
        get_season_episodes_pages depth h l sl None s = (Inl e, s1)"
  then show "season_loop depth h (season # seasons) s = (Inl e, s1)"
    by simp
next
  assume a: "(\<forall>q. first \<le> q \<and> q < wrong \<longrightarrow> well_paged h link total_pages q) \<and>
        first \<le> wrong \<and> wrong \<le> total_pages \<and>
        http h (page_request link wrong) = Inr rp \<and> subscript rp ''page'' = Inr declared \<and>
        \<not> int_eq wrong declared \<and> length [first..wrong] \<le> depth"
  then show r: "get_season_episodes_pages depth h link (JStr slug) (Some first) s =
          (Inl AssertionError, fetch_all h (map (page_request link) [first..wrong]) s)"
    by (intro walk_mismatch [where total_pages = total_pages and rp = rp and v = declared])
       simp_all
  show "calls (snd (get_season_episodes_pages depth h link (JStr slug) (Some first) s)) =
          calls s @ map (page_request link) [first..wrong]"
    unfolding r by (simp add: calls_fetch_all)
next
  assume a: "http h (show_request show_id) = Inr series_json \<and>
        first_data series_json = Inr data0 \<and> seasons_link data0 = Inr seasons_url \<and>
        http h (Get (Url seasons_url [])) = Inr seasons_json \<and>
        data_items seasons_json = Inr (pre @ season # seasons) \<and>
        (\<forall>sn\<in>set pre. stable_season depth h sn) \<and>
        season_link season = Inr l \<and> season_slug_of season = Inr (JStr slug) \<and>
        (\<forall>q. 1 \<le> q \<and> q < wrong \<longrightarrow> well_paged h l total_pages q) \<and>
        1 \<le> wrong \<and> wrong \<le> total_pages \<and>
        http h (page_request l wrong) = Inr rp \<and> subscript rp ''page'' = Inr declared \<and>
        \<not> int_eq wrong declared \<and> length [1..wrong] \<le> depth"
  let ?s2 = "fetch_all h [show_request show_id, Get (Url seasons_url [])] s"
  let ?s3 = "fetch_all h (concat (map (season_requests h) pre)) ?s2"
  have w: "get_season_episodes_pages depth h l (JStr slug) None ?s3 =
          (Inl AssertionError, fetch_all h (map (page_request l) [1..wrong]) ?s3)"
    unfolding walk_default_page
    using a
    by (intro walk_mismatch [where total_pages = total_pages and rp = rp and v = declared])
       simp_all
  from a have st: "\<forall>sn\<in>set pre. stable_season depth h sn" by blast
  have "season_loop depth h (pre @ season # seasons) ?s2 =
          (Inl AssertionError, fetch_all h (map (page_request l) [1..wrong]) ?s3)"
    unfolding season_loop_after_stable [OF st]
    using a w by simp
  moreover from a have "http h (show_request show_id) = Inr series_json"
    "first_data series_json = Inr data0" "seasons_link data0 = Inr seasons_url"
    "http h (Get (Url seasons_url [])) = Inr seasons_json"
    "data_items seasons_json = Inr (pre @ season # seasons)"
    by simp_all
  ultimately have r: "series_real_extract depth h show_id s =
          (Inl AssertionError, fetch_all h (map (page_request l) [1..wrong]) ?s3)"
    by (simp add: series_listing_failed)
  show "fst (series_real_extract depth h show_id s) = Inl AssertionError"
    unfolding r by simp
  show "calls (snd (series_real_extract depth h show_id s)) =
          calls s @ [show_request show_id, Get (Url seasons_url [])]
            @ concat (map (season_requests h) pre) @ map (page_request l) [1..wrong]"
    unfolding r by (simp add: calls_fetch_all)
qed

theorem page_number_asserted_witness:
  "get_season_episodes_pages 3 wrong_page_host lets_play (JStr ''lets-play-2019'') (Some 1) state0
     = (Inl AssertionError, state0\<lparr>calls := [page_request lets_play 1]\<rparr>) \<and>
   season_loop 3 wrong_page_host [lets_play_season] state0
     = (Inl AssertionError, state0\<lparr>calls := [page_request lets_play 1]\<rparr>) \<and>
   fst (get_season_episodes_pages 3 three_pages_host lets_play (JStr ''lets-play-2019'') None state0)
     \<noteq> Inl AssertionError \<and>
   get_season_episodes_pages 3 late_wrong_page_host lets_play (JStr ''lets-play-2019'') (Some 1)
       state0
     = (Inl AssertionError,
        state0\<lparr>calls := [page_request lets_play 1, page_request lets_play 2]\<rparr>) \<and>
   fst (series_real_extract 3 late_wrong_page_host ''lets-play'' state0) = Inl AssertionError \<and>
   calls (snd (series_real_extract 3 late_wrong_page_host ''lets-play'' state0)) =
     [show_request ''lets-play'',
      Get (Url ''https://svod-be.roosterteeth.com/api/v1/shows/lets-play/seasons'' []),
      page_request specials 1, page_request lets_play 1, page_request lets_play 2]"
proof -
  note late = late_wrong_page_host_def show_request_def
  note c1 = page_number_asserted [THEN conjunct1, THEN mp]
  note c2 = page_number_asserted [THEN conjunct2, THEN conjunct1, THEN mp]
  note c4 = page_number_asserted [THEN conjunct2, THEN conjunct2, THEN conjunct2,
              THEN conjunct1, THEN mp]
  note c5 = page_number_asserted [THEN conjunct2, THEN conjunct2, THEN conjunct2,
              THEN conjunct2, THEN conjunct1, THEN mp]
  note c6 = page_number_asserted [THEN conjunct2, THEN conjunct2, THEN conjunct2,
              THEN conjunct2, THEN conjunct2, THEN mp]
  have n3: "(3::nat) = Suc 2" by simp
  have echo: "\<forall>p j v. http three_pages_host (page_request lets_play p) = Inr j \<and>
                 subscript j ''page'' = Inr v \<longrightarrow> int_eq p v"
    by (auto simp: run_series split: if_splits)
  have w1: "http wrong_page_host (page_request lets_play 1) =
              Inr (listing_page 2 3 [''/watch/lets-play-2019-3'']) \<and>
            subscript (listing_page 2 3 [''/watch/lets-play-2019-3'']) ''page'' = Inr (JInt 2) \<and>
            \<not> int_eq 1 (JInt 2)"
    by (simp add: run_series)
  have a: "get_season_episodes_pages 3 wrong_page_host lets_play (JStr ''lets-play-2019'')
             (Some 1) state0
           = (Inl AssertionError, state0\<lparr>calls := [page_request lets_play 1]\<rparr>)"
    unfolding n3 using c1 [OF w1, of 2 "''lets-play-2019''" state0]
    by (simp add: wrong_page_host_def null_host_def download_json_def state0_def)
  have l: "season_link lets_play_season = Inr lets_play \<and>
           season_slug_of lets_play_season = Inr (JStr ''lets-play-2019'') \<and>
           get_season_episodes_pages 3 wrong_page_host lets_play (JStr ''lets-play-2019'')
             None state0
           = (Inl AssertionError, state0\<lparr>calls := [page_request lets_play 1]\<rparr>)"
    using a by (simp only: walk_default_page lets_play_facts simp_thms)
  have d: "season_loop 3 wrong_page_host [lets_play_season] state0
           = (Inl AssertionError, state0\<lparr>calls := [page_request lets_play 1]\<rparr>)"
    by (rule c4 [OF l])
  have c: "fst (get_season_episodes_pages 3 three_pages_host lets_play (JStr ''lets-play-2019'')
             None state0) \<noteq> Inl AssertionError"
    by (rule c2 [OF echo])
  have u: "[1..2] = [1, 2::int]" by (simp add: upto_rec1)
  have wp: "well_paged late_wrong_page_host lets_play 3 1"
    by (simp add: well_paged_def late run_series)
  have m: "(\<forall>q. 1 \<le> q \<and> q < 2 \<longrightarrow> well_paged late_wrong_page_host lets_play 3 q) \<and>
        (1::int) \<le> 2 \<and> (2::int) \<le> 3 \<and>
        http late_wrong_page_host (page_request lets_play 2) =
          Inr (listing_page 3 3 [''/watch/lets-play-2019-4'']) \<and>
        subscript (listing_page 3 3 [''/watch/lets-play-2019-4'']) ''page'' = Inr (JInt 3) \<and>
        \<not> int_eq 2 (JInt 3) \<and> length [1..2::int] \<le> 3"
  proof -
    have "well_paged late_wrong_page_host lets_play 3 q" if "1 \<le> q \<and> q < 2" for q :: int
    proof -
      from that have "q = 1" by simp
      with wp show ?thesis by simp
    qed
    then have "\<forall>q. 1 \<le> q \<and> q < 2 \<longrightarrow> well_paged late_wrong_page_host lets_play 3 q"
      by blast
    then show ?thesis by (simp add: late run_series)
  qed
  have e: "get_season_episodes_pages 3 late_wrong_page_host lets_play (JStr ''lets-play-2019'')
             (Some 1) state0
           = (Inl AssertionError,
              state0\<lparr>calls := [page_request lets_play 1, page_request lets_play 2]\<rparr>)"
    using c5 [OF m, of "''lets-play-2019''" state0]
    by (simp add: u fetch_all_def download_json_def late_wrong_page_host_def null_host_def
        state0_def)
  have sp: "declared_total late_wrong_page_host specials = 0"
    by (simp add: declared_total_def late run_series)
  have pg: "season_pages late_wrong_page_host specials_season = [1]"
    by (simp add: season_pages_def specials_facts sp)
  have "well_paged late_wrong_page_host specials 0 1"
    by (simp add: well_paged_def late run_series)
  then have st: "stable_season 3 late_wrong_page_host specials_season"
    by (simp add: stable_season_def specials_facts sp pg)
  have rq: "season_requests late_wrong_page_host specials_season = [page_request specials 1]"
    by (simp add: season_requests_def specials_facts pg)
  have hf: "http late_wrong_page_host (show_request ''lets-play'') = Inr lets_play_show"
    "http late_wrong_page_host
       (Get (Url ''https://svod-be.roosterteeth.com/api/v1/shows/lets-play/seasons'' []))
     = Inr (JObj [(''data'', JList [specials_season, lets_play_season])])"
    by (simp_all add: late api_domain_def)
  have f: "http late_wrong_page_host (show_request ''lets-play'') = Inr lets_play_show \<and>
        first_data lets_play_show =
          Inr (JObj [(''attributes'', JObj [(''title'', JStr ''Lets Play'')]),
                     (''links'', JObj [(''seasons'', JStr ''/api/v1/shows/lets-play/seasons'')])]) \<and>
        seasons_link (JObj [(''attributes'', JObj [(''title'', JStr ''Lets Play'')]),
                     (''links'', JObj [(''seasons'', JStr ''/api/v1/shows/lets-play/seasons'')])])
          = Inr ''https://svod-be.roosterteeth.com/api/v1/shows/lets-play/seasons'' \<and>
        http late_wrong_page_host
          (Get (Url ''https://svod-be.roosterteeth.com/api/v1/shows/lets-play/seasons'' []))
          = Inr (JObj [(''data'', JList [specials_season, lets_play_season])]) \<and>
        data_items (JObj [(''data'', JList [specials_season, lets_play_season])])
          = Inr ([specials_season] @ lets_play_season # []) \<and>
        (\<forall>sn\<in>set [specials_season]. stable_season 3 late_wrong_page_host sn) \<and>
        season_link lets_play_season = Inr lets_play \<and>
        season_slug_of lets_play_season = Inr (JStr ''lets-play-2019'')"
    by (simp add: st lets_play_facts hf api_domain_def
        first_data_def lets_play_show_def seasons_link_def data_items_def)
  from f m have fm: "http late_wrong_page_host (show_request ''lets-play'') = Inr lets_play_show \<and>
        first_data lets_play_show =
          Inr (JObj [(''attributes'', JObj [(''title'', JStr ''Lets Play'')]),
                     (''links'', JObj [(''seasons'', JStr ''/api/v1/shows/lets-play/seasons'')])]) \<and>
        seasons_link (JObj [(''attributes'', JObj [(''title'', JStr ''Lets Play'')]),
                     (''links'', JObj [(''seasons'', JStr ''/api/v1/shows/lets-play/seasons'')])])
          = Inr ''https://svod-be.roosterteeth.com/api/v1/shows/lets-play/seasons'' \<and>
        http late_wrong_page_host
          (Get (Url ''https://svod-be.roosterteeth.com/api/v1/shows/lets-play/seasons'' []))
          = Inr (JObj [(''data'', JList [specials_season, lets_play_season])]) \<and>
        data_items (JObj [(''data'', JList [specials_season, lets_play_season])])
          = Inr ([specials_season] @ lets_play_season # []) \<and>
        (\<forall>sn\<in>set [specials_season]. stable_season 3 late_wrong_page_host sn) \<and>
        season_link lets_play_season = Inr lets_play \<and>
        season_slug_of lets_play_season = Inr (JStr ''lets-play-2019'') \<and>
        (\<forall>q. 1 \<le> q \<and> q < 2 \<longrightarrow> well_paged late_wrong_page_host lets_play 3 q) \<and>
        (1::int) \<le> 2 \<and> (2::int) \<le> 3 \<and>
        http late_wrong_page_host (page_request lets_play 2) =
          Inr (listing_page 3 3 [''/watch/lets-play-2019-4'']) \<and>
        subscript (listing_page 3 3 [''/watch/lets-play-2019-4'']) ''page'' = Inr (JInt 3) \<and>
        \<not> int_eq 2 (JInt 3) \<and> length [1..2::int] \<le> 3"
    by blast
  have g: "fst (series_real_extract 3 late_wrong_page_host ''lets-play'' state0)
             = Inl AssertionError \<and>
           calls (snd (series_real_extract 3 late_wrong_page_host ''lets-play'' state0)) =
             [show_request ''lets-play'',
              Get (Url ''https://svod-be.roosterteeth.com/api/v1/shows/lets-play/seasons'' []),
              page_request specials 1, page_request lets_play 1, page_request lets_play 2]"
    using c6 [OF fm, of state0] by (simp add: rq u state0_def)
  from a d c e g show ?thesis by (simp only: simp_thms)
qed

end
